theory Spec2Isabelle
  imports Main
begin

section \<open>JavaScript string primitives\<close>

text \<open>
  A JavaScript string is a sequence of UTF-16 code units. The model takes one \<open>char\<close> per
  code unit and therefore covers the code units 0..255. Positions, lengths and numeric
  options are \<open>int\<close>, since the chunkers subtract them freely.
\<close>

text \<open>\<open>Array.prototype.join\<close> on strings.\<close>

fun join :: "string \<Rightarrow> string list \<Rightarrow> string" where
  "join sep [] = []"
| "join sep [x] = x"
| "join sep (x # y # ys) = x @ sep @ join sep (y # ys)"

text \<open>\<open>Array.prototype.slice(start, end)\<close>: a negative index counts from the end.\<close>

definition slice :: "'a list \<Rightarrow> int \<Rightarrow> int \<Rightarrow> 'a list" where
  "slice xs start end' =
     (let len = int (length xs);
          k = (if start < 0 then max (len + start) 0 else min start len);
          fin = (if end' < 0 then max (len + end') 0 else min end' len)
      in take (nat (fin - k)) (drop (nat k) xs))"

text \<open>A number inside a template literal is rendered in decimal.\<close>

definition digit_char :: "nat \<Rightarrow> char" where
  "digit_char n = char_of (48 + n)"

function decimal :: "nat \<Rightarrow> string" where
  "decimal n = (if n < 10 then [digit_char n] else decimal (n div 10) @ [digit_char (n mod 10)])"
  by pat_completeness auto
termination
  by (relation "measure id") auto

definition toString :: "int \<Rightarrow> string" where
  "toString i = (if i < 0 then CHR ''-'' # decimal (nat (- i)) else decimal (nat i))"

text \<open>White space as \<open>\s\<close> and \<open>String.prototype.trim\<close> see it, among the code units
  0..255: TAB, LF, VT, FF, CR, SPACE and NBSP.\<close>

definition isWhitespace :: "char \<Rightarrow> bool" where
  "isWhitespace c =
     (c = CHR 0x09 \<or> c = CHR 0x0A \<or> c = CHR 0x0B \<or> c = CHR 0x0C \<or> c = CHR 0x0D
      \<or> c = CHR 0x20 \<or> c = CHR 0xA0)"

definition trim :: "string \<Rightarrow> string" where
  "trim s = rev (dropWhile isWhitespace (rev (dropWhile isWhitespace s)))"

text \<open>\<open>String.prototype.substring(start, end)\<close>: both arguments are clamped to
  \<open>[0, length]\<close> and swapped when \<open>start > end\<close>.\<close>

definition substring :: "string \<Rightarrow> int \<Rightarrow> int \<Rightarrow> string" where
  "substring s startIndex endIndex =
     (let len = int (length s);
          a = min (max startIndex 0) len;
          b = min (max endIndex 0) len
      in take (nat (max a b - min a b)) (drop (nat (min a b)) s))"

text \<open>\<open>String.prototype.lastIndexOf(searchString, position)\<close>: the largest index not
  above the clamped position where \<open>searchString\<close> occurs, or \<open>-1\<close>.\<close>

primrec lastIndexOf_down :: "string \<Rightarrow> string \<Rightarrow> nat \<Rightarrow> int" where
  "lastIndexOf_down s searchString 0 =
     (if take (length searchString) s = searchString then 0 else - 1)"
| "lastIndexOf_down s searchString (Suc k) =
     (if take (length searchString) (drop (Suc k) s) = searchString then int (Suc k)
      else lastIndexOf_down s searchString k)"

definition lastIndexOf :: "string \<Rightarrow> string \<Rightarrow> int \<Rightarrow> int" where
  "lastIndexOf s searchString position =
     lastIndexOf_down s searchString (nat (min (max position 0) (int (length s))))"

text \<open>\<open>String.prototype.indexOf(searchString, position)\<close>: the smallest index not below
  the clamped position where \<open>searchString\<close> occurs, or \<open>-1\<close>.\<close>

fun indexOf_up :: "string \<Rightarrow> string \<Rightarrow> int \<Rightarrow> int" where
  "indexOf_up [] searchString k = (if searchString = [] then k else - 1)"
| "indexOf_up (c # cs) searchString k =
     (if take (length searchString) (c # cs) = searchString then k
      else indexOf_up cs searchString (k + 1))"

definition indexOf :: "string \<Rightarrow> string \<Rightarrow> int \<Rightarrow> int" where
  "indexOf s searchString position =
     (let start = min (max position 0) (int (length s))
      in indexOf_up (drop (nat start) s) searchString start)"

text \<open>\<open>String.prototype.split(separator)\<close> with a string separator: the pieces between
  the occurrences of the separator, found from left to right; the empty separator splits
  into code units.\<close>

function split_from :: "string \<Rightarrow> string \<Rightarrow> string \<Rightarrow> string list" where
  "split_from separator piece s =
     (if s = [] then [piece]
      else if separator \<noteq> [] \<and> take (length separator) s = separator
      then piece # split_from separator [] (drop (length separator) s)
      else split_from separator (piece @ [hd s]) (tl s))"
  by pat_completeness auto
termination
  by (relation "measure (\<lambda>(separator, piece, s). length s)") auto

declare split_from.simps [simp del]

definition splitString :: "string \<Rightarrow> string \<Rightarrow> string list" where
  "splitString s separator =
     (if separator = [] then map (\<lambda>c. [c]) s else split_from separator [] s)"

section \<open>Text utilities (\<open>lib/textUtils.ts\<close>)\<close>

text \<open>\<open>estimateTokens\<close>: \<open>Math.ceil(text.length / 4)\<close>.\<close>

definition estimateTokens :: "string \<Rightarrow> int" where
  "estimateTokens s = (int (length s) + 3) div 4"

subsection \<open>\<open>splitIntoSentences\<close>\<close>

definition abbreviations :: "string list" where
  "abbreviations =
     [''Mr.'', ''Mrs.'', ''Ms.'', ''Dr.'', ''Prof.'', ''Sr.'', ''Jr.'', ''vs.'', ''etc.'',
      ''e.g.'', ''i.e.'']"

text \<open>The placeholder \<open>__ABBR${idx}__\<close>.\<close>

definition placeholder :: "nat \<Rightarrow> string" where
  "placeholder idx = ''__ABBR'' @ toString (int idx) @ ''__''"

text \<open>\<open>s.split(a).join(b)\<close>.\<close>

definition replaceEvery :: "string \<Rightarrow> string \<Rightarrow> string \<Rightarrow> string" where
  "replaceEvery a b s = join b (splitString s a)"

text \<open>The first \<open>forEach\<close>: abbreviation number \<open>idx\<close> is replaced by its placeholder,
  in the order of the list. The \<open>Map\<close> of placeholders keeps this insertion order, and the
  second \<open>forEach\<close> puts the abbreviations back in the same order.\<close>

fun substituteAbbreviations :: "nat \<Rightarrow> string list \<Rightarrow> string \<Rightarrow> string" where
  "substituteAbbreviations idx [] processedText = processedText"
| "substituteAbbreviations idx (abbr # rest) processedText =
     substituteAbbreviations (idx + 1) rest (replaceEvery abbr (placeholder idx) processedText)"

fun restoreAbbreviations :: "nat \<Rightarrow> string list \<Rightarrow> string \<Rightarrow> string" where
  "restoreAbbreviations idx [] restored = restored"
| "restoreAbbreviations idx (original # rest) restored =
     restoreAbbreviations (idx + 1) rest (replaceEvery (placeholder idx) original restored)"

definition isSentencePunct :: "char \<Rightarrow> bool" where
  "isSentencePunct c = (c = CHR ''.'' \<or> c = CHR ''!'' \<or> c = CHR ''?'')"

text \<open>\<open>s.split(/(?<=[.!?])\s+/)\<close>: a separator is a maximal run of white space that
  follows one of \<open>.!?\<close>. \<open>previous\<close> is the code unit before the current position,
  \<open>piece\<close> the text since the last separator.\<close>

function splitAfterPunct :: "char option \<Rightarrow> string \<Rightarrow> string \<Rightarrow> string list" where
  "splitAfterPunct previous piece [] = [piece]"
| "splitAfterPunct previous piece (c # cs) =
     (if isWhitespace c \<and> (case previous of None \<Rightarrow> False | Some p \<Rightarrow> isSentencePunct p)
      then piece # splitAfterPunct None [] (dropWhile isWhitespace cs)
      else splitAfterPunct (Some c) (piece @ [c]) cs)"
  by pat_completeness auto
termination
  by (relation "measure (\<lambda>(previous, piece, s). length s)")
    (auto simp: length_dropWhile_le less_Suc_eq_le)

definition splitIntoSentences :: "string \<Rightarrow> string list" where
  "splitIntoSentences s =
     (let processedText = substituteAbbreviations 0 abbreviations s;
          sentences = filter (\<lambda>s. s \<noteq> []) (map trim (splitAfterPunct None [] processedText))
      in map (restoreAbbreviations 0 abbreviations) sentences)"

subsection \<open>\<open>splitIntoParagraphs\<close>\<close>

text \<open>\<open>s.split(/\n\s*\n/)\<close>: a separator starts at a line feed and runs, through white
  space only, to the last line feed of that white space.\<close>

definition blankLineLength :: "string \<Rightarrow> nat" where
  "blankLineLength cs =
     (let run = takeWhile isWhitespace cs
      in length run - length (takeWhile (\<lambda>c. c \<noteq> CHR 0x0A) (rev run)))"

function splitAtBlankLines :: "string \<Rightarrow> string \<Rightarrow> string list" where
  "splitAtBlankLines piece [] = [piece]"
| "splitAtBlankLines piece (c # cs) =
     (if c = CHR 0x0A \<and> CHR 0x0A \<in> set (takeWhile isWhitespace cs)
      then piece # splitAtBlankLines [] (drop (blankLineLength cs) cs)
      else splitAtBlankLines (piece @ [c]) cs)"
  by pat_completeness auto
termination
  by (relation "measure (\<lambda>(piece, s). length s)") auto

definition splitIntoParagraphs :: "string \<Rightarrow> string list" where
  "splitIntoParagraphs s = filter (\<lambda>p. p \<noteq> []) (map trim (splitAtBlankLines [] s))"

subsection \<open>\<open>cleanTextForChunking\<close>\<close>

text \<open>\<open>replace(/\r\n/g, '\n')\<close>.\<close>

fun normalizeLineBreaks :: "string \<Rightarrow> string" where
  "normalizeLineBreaks (c # d # rest) =
     (if c = CHR 0x0D \<and> d = CHR 0x0A then CHR 0x0A # normalizeLineBreaks rest
      else c # normalizeLineBreaks (d # rest))"
| "normalizeLineBreaks s = s"

text \<open>\<open>replace(/[ \t]+/g, ' ')\<close>: every run of spaces and tabs becomes one space.\<close>

definition isBlank :: "char \<Rightarrow> bool" where
  "isBlank c = (c = CHR 0x20 \<or> c = CHR 0x09)"

fun collapseBlanks :: "string \<Rightarrow> string" where
  "collapseBlanks (c # d # rest) =
     (if isBlank c
      then (if isBlank d then collapseBlanks (d # rest) else CHR 0x20 # collapseBlanks (d # rest))
      else c # collapseBlanks (d # rest))"
| "collapseBlanks [c] = (if isBlank c then [CHR 0x20] else [c])"
| "collapseBlanks [] = []"

text \<open>\<open>replace(/\n{3,}/g, '\n\n')\<close>: a run of three or more line feeds becomes two;
  \<open>k\<close> counts the line feeds of the current run that were kept.\<close>

fun limitLineFeeds :: "nat \<Rightarrow> string \<Rightarrow> string" where
  "limitLineFeeds k [] = []"
| "limitLineFeeds k (c # cs) =
     (if c = CHR 0x0A
      then (if k < 2 then c # limitLineFeeds (k + 1) cs else limitLineFeeds k cs)
      else c # limitLineFeeds 0 cs)"

definition cleanTextForChunking :: "string \<Rightarrow> string" where
  "cleanTextForChunking s = trim (limitLineFeeds 0 (collapseBlanks (normalizeLineBreaks s)))"

subsection \<open>\<open>findBreakPoint\<close>\<close>

text \<open>The loop over \<open>/[.!?]\s+/g\<close>: the end positions of its matches, in order. A match
  is one of \<open>.!?\<close> followed by a maximal run of white space; since no white space is one
  of \<open>.!?\<close>, the matches are found by looking at every position in turn.\<close>

fun sentenceEnds :: "int \<Rightarrow> string \<Rightarrow> int list" where
  "sentenceEnds i [] = []"
| "sentenceEnds i (c # cs) =
     (if isSentencePunct c \<and> takeWhile isWhitespace cs \<noteq> []
      then (i + 1 + int (length (takeWhile isWhitespace cs))) # sentenceEnds (i + 1) cs
      else sentenceEnds (i + 1) cs)"

definition findBreakPoint :: "string \<Rightarrow> int \<Rightarrow> int \<Rightarrow> int" where
  "findBreakPoint s targetPos searchRange =
     (if targetPos \<ge> int (length s) then int (length s)
      else
        let start = max 0 (targetPos - searchRange);
            searchText = substring s start (min (int (length s)) (targetPos + searchRange));
            relativeTarget = targetPos - start;
            paragraphBreak = lastIndexOf searchText [CHR 0x0A, CHR 0x0A] (relativeTarget + searchRange);
            bestSentenceEnd =
              foldl (\<lambda>best pos. if pos \<le> relativeTarget + searchRange then pos else best)
                (- 1) (sentenceEnds 0 searchText);
            wordBoundary = lastIndexOf searchText [CHR 0x20] (relativeTarget + 20)
        in if paragraphBreak \<noteq> - 1 \<and> paragraphBreak > relativeTarget - searchRange
           then start + paragraphBreak + 2
           else if bestSentenceEnd \<noteq> - 1 \<and> bestSentenceEnd > relativeTarget - searchRange
           then start + bestSentenceEnd
           else if wordBoundary \<noteq> - 1 then start + wordBoundary + 1
           else targetPos)"

section \<open>Chunking strategies\<close>

text \<open>\<open>types/chunk.ts\<close>. An optional field is an \<open>option\<close>; the strategies fill in
  their defaults (\<open>minChunkSize = 100\<close>, \<open>preserveSentences = true\<close>) when they
  destructure the options.\<close>

datatype ChunkingStrategy = Fixed | Recursive | Semantic | Page

record IChunkMetadata =
  pageNumber :: "int option"
  sectionName :: "string option"
  header :: "string option"
  startChar :: "int option"
  endChar :: "int option"
  source :: "string option"

record IChunkData =
  chunk_content :: string
  charCount :: int
  tokenCount :: int
  metadata :: IChunkMetadata

record IChunkingOptions =
  strategy :: ChunkingStrategy
  chunkSize :: int
  chunkOverlap :: int
  minChunkSize :: "int option"
  maxChunkSize :: "int option"
  preserveSentences :: "bool option"

definition minChunkSizeOf :: "IChunkingOptions \<Rightarrow> int" where
  "minChunkSizeOf options = (case minChunkSize options of None \<Rightarrow> 100 | Some m \<Rightarrow> m)"

definition preserveSentencesOf :: "IChunkingOptions \<Rightarrow> bool" where
  "preserveSentencesOf options = (case preserveSentences options of None \<Rightarrow> True | Some b \<Rightarrow> b)"

record IPageContent =
  page_number :: int
  page_text :: string

definition noMetadata :: IChunkMetadata where
  "noMetadata = \<lparr>pageNumber = None, sectionName = None, header = None, startChar = None,
                  endChar = None, source = None\<rparr>"

subsection \<open>Fixed (\<open>strategies/fixedChunker.ts\<close>)\<close>

text \<open>\<open>findPageNumber\<close>: the page whose character range holds \<open>charPos\<close>, else the
  last page's number (\<open>undefined\<close> when there is no page).\<close>

fun findPageNumber_loop :: "int \<Rightarrow> int \<Rightarrow> IPageContent list \<Rightarrow> int option" where
  "findPageNumber_loop charPos currentPos [] = None"
| "findPageNumber_loop charPos currentPos (page # rest) =
     (if charPos \<ge> currentPos \<and> charPos < currentPos + int (length (page_text page))
      then Some (page_number page)
      else findPageNumber_loop charPos (currentPos + int (length (page_text page)) + 1) rest)"

definition findPageNumber :: "int \<Rightarrow> IPageContent list \<Rightarrow> int option" where
  "findPageNumber charPos pages =
     (case findPageNumber_loop charPos 0 pages of
        Some n \<Rightarrow> Some n
      | None \<Rightarrow> (if pages = [] then None else Some (page_number (last pages))))"

text \<open>The state of the \<open>while\<close> loop of \<open>fixedChunk\<close>, and one run of its body.\<close>

record FixedState =
  startPos :: int
  chunks :: "IChunkData list"

definition fixedChunk_body ::
  "string \<Rightarrow> IChunkingOptions \<Rightarrow> IPageContent list option \<Rightarrow> FixedState \<Rightarrow> FixedState" where
  "fixedChunk_body cleanedText options pages st =
     (let endPos =
            (if preserveSentencesOf options
                \<and> startPos st + chunkSize options < int (length cleanedText)
             then findBreakPoint cleanedText (startPos st + chunkSize options) 100
             else startPos st + chunkSize options);
          chunkContent = trim (substring cleanedText (startPos st) endPos)
      in if int (length chunkContent) < minChunkSizeOf options
            \<and> startPos st + chunkSize options < int (length cleanedText)
         then st\<lparr>startPos := endPos - chunkOverlap options\<rparr>
         else \<lparr>startPos =
                 (if endPos - chunkOverlap options \<le> startPos st then endPos
                  else endPos - chunkOverlap options),
               chunks = chunks st @
                 [\<lparr>chunk_content = chunkContent,
                   charCount = int (length chunkContent),
                   tokenCount = estimateTokens chunkContent,
                   metadata = noMetadata
                     \<lparr>startChar := Some (startPos st),
                      endChar := Some endPos,
                      pageNumber := (case pages of None \<Rightarrow> None
                                     | Some ps \<Rightarrow> findPageNumber (startPos st) ps)\<rparr>\<rparr>]\<rparr>)"

text \<open>The \<open>while\<close> loop. It need not end: \<open>None\<close> is a run that never returns.\<close>

partial_function (option) fixedChunk_loop ::
  "string \<Rightarrow> IChunkingOptions \<Rightarrow> IPageContent list option \<Rightarrow> FixedState
     \<Rightarrow> IChunkData list option" where
  "fixedChunk_loop cleanedText options pages st =
     (if startPos st < int (length cleanedText)
      then fixedChunk_loop cleanedText options pages (fixedChunk_body cleanedText options pages st)
      else Some (chunks st))"

declare fixedChunk_loop.simps [code]

definition fixedChunk ::
  "string \<Rightarrow> IChunkingOptions \<Rightarrow> IPageContent list option \<Rightarrow> IChunkData list option" where
  "fixedChunk s options pages =
     fixedChunk_loop (cleanTextForChunking s) options pages \<lparr>startPos = 0, chunks = []\<rparr>"

subsection \<open>Page (\<open>strategies/pageChunker.ts\<close>)\<close>

fun pageChunk_loop ::
  "IChunkingOptions \<Rightarrow> IPageContent list \<Rightarrow> IChunkData list \<Rightarrow> IChunkData list option" where
  "pageChunk_loop options [] acc = Some acc"
| "pageChunk_loop options (page # rest) acc =
     (let cleanedText = cleanTextForChunking (page_text page)
      in if int (length cleanedText) \<le> chunkSize options
         then pageChunk_loop options rest
                (if cleanedText \<noteq> []
                 then acc @ [\<lparr>chunk_content = cleanedText,
                              charCount = int (length cleanedText),
                              tokenCount = estimateTokens cleanedText,
                              metadata = noMetadata\<lparr>pageNumber := Some (page_number page)\<rparr>\<rparr>]
                 else acc)
         else (case fixedChunk cleanedText options None of
                 None \<Rightarrow> None
               | Some pageChunks \<Rightarrow>
                   pageChunk_loop options rest
                     (acc @ map (\<lambda>chunk. chunk\<lparr>metadata :=
                                   (metadata chunk)\<lparr>pageNumber := Some (page_number page)\<rparr>\<rparr>)
                              pageChunks)))"


subsection \<open>Recursive (\<open>strategies/recursiveChunker.ts\<close>)\<close>

definition SEPARATORS :: "string list" where
  "SEPARATORS =
     [[CHR 0x0A, CHR 0x0A, CHR 0x0A], [CHR 0x0A, CHR 0x0A], [CHR 0x0A], ''. '', '', '', '' '', []]"

text \<open>The last resort of \<open>splitRecursively\<close>: pieces of \<open>chunkSize\<close> code units. With
  \<open>chunkSize \<le> 0\<close> the loop never ends.\<close>

partial_function (option) splitByLength ::
  "string \<Rightarrow> int \<Rightarrow> int \<Rightarrow> string list \<Rightarrow> string list option" where
  "splitByLength s size' i pieces =
     (if i < int (length s)
      then splitByLength s size' (i + size') (pieces @ [substring s i (i + size')])
      else Some pieces)"

declare splitByLength.simps [code]

fun concatAll :: "'a list option list \<Rightarrow> 'a list option" where
  "concatAll [] = Some []"
| "concatAll (None # rest) = None"
| "concatAll (Some xs # rest) = (case concatAll rest of None \<Rightarrow> None | Some ys \<Rightarrow> Some (xs @ ys))"

text \<open>\<open>splitRecursively\<close>. The list \<open>SEPARATORS\<close> ends with the empty separator, where
  the recursion stops, so the equation for the empty list is not reached from
  \<open>recursiveChunk\<close>; there JavaScript splits at \<open>undefined\<close>, which gives the whole
  text, and recurses without end when that text is not blank.\<close>

fun splitRecursively :: "string \<Rightarrow> int \<Rightarrow> string list \<Rightarrow> string list option" where
  "splitRecursively s size' [] =
     (if int (length s) \<le> size' then Some [s]
      else if trim s \<noteq> [] then None else Some [])"
| "splitRecursively s size' (separator # remainingSeparators) =
     (if int (length s) \<le> size' then Some [s]
      else if separator = [] then splitByLength s size' 0 []
      else
        let parts = filter (\<lambda>p. trim p \<noteq> []) (splitString s separator)
        in if length parts = 1 then splitRecursively s size' remainingSeparators
           else concatAll
                  (map (\<lambda>part. if int (length part) \<le> size' then Some [part]
                               else splitRecursively part size' remainingSeparators)
                     parts))"

text \<open>\<open>getOverlapText\<close>.\<close>

definition getOverlapText :: "string \<Rightarrow> int \<Rightarrow> string" where
  "getOverlapText s overlapSize =
     (if int (length s) \<le> overlapSize then s
      else
        let overlapStart = int (length s) - overlapSize;
            sentences = splitIntoSentences (substring s overlapStart (int (length s)));
            lastSpace = lastIndexOf s '' '' (overlapStart + 50)
        in if length sentences > 1 then last sentences
           else if lastSpace > overlapStart - 50 then substring s (lastSpace + 1) (int (length s))
           else substring s overlapStart (int (length s)))"

text \<open>The merging loop of \<open>recursiveChunk\<close> and its three mutable locals.\<close>

record RecursiveState =
  r_chunks :: "IChunkData list"
  currentChunk :: string
  r_startChar :: int

definition recursiveChunkData :: "string \<Rightarrow> int \<Rightarrow> IChunkData" where
  "recursiveChunkData current start =
     \<lparr>chunk_content = trim current,
      charCount = int (length (trim current)),
      tokenCount = estimateTokens current,
      metadata = noMetadata\<lparr>startChar := Some start\<rparr>\<rparr>"

definition recursiveChunk_body ::
  "string \<Rightarrow> IChunkingOptions \<Rightarrow> RecursiveState \<Rightarrow> string \<Rightarrow> RecursiveState" where
  "recursiveChunk_body cleanedText options st piece =
     (if int (length (currentChunk st)) + int (length piece) \<le> chunkSize options
      then st\<lparr>currentChunk :=
                currentChunk st @ (if currentChunk st \<noteq> [] then '' '' else []) @ piece\<rparr>
      else
        let overlapText = getOverlapText (currentChunk st) (chunkOverlap options)
        in \<lparr>r_chunks =
               (if int (length (currentChunk st)) \<ge> minChunkSizeOf options
                then r_chunks st @ [recursiveChunkData (currentChunk st) (r_startChar st)]
                else r_chunks st),
             currentChunk = overlapText @ (if overlapText \<noteq> [] then '' '' else []) @ piece,
             r_startChar = indexOf cleanedText piece (r_startChar st)\<rparr>)"

definition recursiveChunk :: "string \<Rightarrow> IChunkingOptions \<Rightarrow> IChunkData list option" where
  "recursiveChunk s options =
     (let cleanedText = cleanTextForChunking s
      in case splitRecursively cleanedText (chunkSize options) SEPARATORS of
           None \<Rightarrow> None
         | Some rawChunks \<Rightarrow>
             let st = foldl (recursiveChunk_body cleanedText options)
                        \<lparr>r_chunks = [], currentChunk = [], r_startChar = 0\<rparr> rawChunks
             in Some (if int (length (trim (currentChunk st))) \<ge> minChunkSizeOf options
                      then r_chunks st @ [recursiveChunkData (currentChunk st) (r_startChar st)]
                      else r_chunks st))"

subsection \<open>\<open>extractSections\<close> (\<open>lib/textUtils.ts\<close>)\<close>

text \<open>Line terminators among the code units 0..255 (LF and CR): \<open>.\<close> does not match
  them, and with the \<open>m\<close> flag \<open>^\<close> holds after one and \<open>$\<close> before one.\<close>

definition isLineTerminator :: "char \<Rightarrow> bool" where
  "isLineTerminator c = (c = CHR 0x0A \<or> c = CHR 0x0D)"

definition isUpper :: "char \<Rightarrow> bool" where
  "isUpper c = (65 \<le> (of_char c :: nat) \<and> (of_char c :: nat) \<le> 90)"

text \<open>The largest \<open>k\<close> with \<open>k \<le> n\<close> and \<open>P k\<close>, as a backtracking quantifier finds
  it; the search stops below \<open>lo\<close>.\<close>

fun largestBelow :: "(nat \<Rightarrow> bool) \<Rightarrow> nat \<Rightarrow> nat \<Rightarrow> nat option" where
  "largestBelow P lo 0 = (if lo = 0 \<and> P 0 then Some 0 else None)"
| "largestBelow P lo (Suc n) =
     (if Suc n < lo then None
      else if P (Suc n) then Some (Suc n)
      else largestBelow P lo n)"

text \<open>The first alternative, \<open>#{1,6}\s+.+\<close> followed by \<open>$\<close>, tried on the text \<open>s\<close>
  from its start: the length of the match. The hashes are all the leading hashes (a
  seventh hash, or anything but white space behind them, fails); \<open>\s+\<close> gives back
  white space until a code unit that \<open>.\<close> matches follows; \<open>.+\<close> then runs to the end
  of that line, where \<open>$\<close> holds.\<close>

definition matchMarkdownHeader :: "string \<Rightarrow> nat option" where
  "matchMarkdownHeader s =
     (let hashes = length (takeWhile (\<lambda>c. c = CHR ''#'') s);
          afterHashes = drop hashes s;
          spaces = length (takeWhile isWhitespace afterHashes)
      in if hashes < 1 \<or> hashes > 6 \<or> spaces < 1 then None
         else
           (case largestBelow
                   (\<lambda>k. k < length afterHashes \<and> \<not> isLineTerminator (afterHashes ! k))
                   1 spaces of
              None \<Rightarrow> None
            | Some k \<Rightarrow>
                Some (hashes + k
                      + length (takeWhile (\<lambda>c. \<not> isLineTerminator c) (drop k afterHashes)))))"

text \<open>The second alternative, \<open>[A-Z][A-Z\s]{2,}[A-Z]\<close> followed by \<open>$\<close>: after the
  first capital, \<open>[A-Z\s]{2,}\<close> takes \<open>k\<close> code units of the run of capitals and white
  space, the most it can while a capital follows and the line or the text ends behind
  that capital.\<close>

definition matchCapsHeader :: "string \<Rightarrow> nat option" where
  "matchCapsHeader s =
     (case s of
        [] \<Rightarrow> None
      | c # rest \<Rightarrow>
          if \<not> isUpper c then None
          else
            let run = length (takeWhile (\<lambda>c. isUpper c \<or> isWhitespace c) rest)
            in (case largestBelow
                       (\<lambda>k. k < run \<and> isUpper (rest ! k)
                            \<and> (if Suc k < length rest then isLineTerminator (rest ! Suc k)
                                else True))
                       2 run of
                  None \<Rightarrow> None
                | Some k \<Rightarrow> Some (k + 2)))"

text \<open>\<open>headerPattern\<close> at a position where \<open>^\<close> holds: the first alternative, else
  the second.\<close>

definition matchHeader :: "string \<Rightarrow> nat option" where
  "matchHeader s =
     (case matchMarkdownHeader s of Some n \<Rightarrow> Some n | None \<Rightarrow> matchCapsHeader s)"

text \<open>\<open>text.split(headerPattern)\<close>: the pieces between the matches, and after each
  piece the text of the match (the capture group). \<open>atLineStart\<close> says that \<open>^\<close> holds
  at the current position, \<open>piece\<close> is the text since the last match.\<close>

function splitAtHeaders :: "bool \<Rightarrow> string \<Rightarrow> string \<Rightarrow> string list" where
  "splitAtHeaders atLineStart piece [] = [piece]"
| "splitAtHeaders atLineStart piece (c # cs) =
     (case (if atLineStart then matchHeader (c # cs) else None) of
        Some n \<Rightarrow>
          if n = 0 then splitAtHeaders (isLineTerminator c) (piece @ [c]) cs
          else piece # take n (c # cs)
                 # splitAtHeaders (isLineTerminator (last (take n (c # cs)))) [] (drop n (c # cs))
      | None \<Rightarrow> splitAtHeaders (isLineTerminator c) (piece @ [c]) cs)"
  by pat_completeness auto
termination
  by (relation "measure (\<lambda>(atLineStart, piece, s). length s)") auto

text \<open>The two tests of the loop of \<open>extractSections\<close>, without the \<open>m\<close> flag:
  \<open>/^#{1,6}\s+/\<close> and \<open>/^[A-Z][A-Z\s]{2,}[A-Z]$/\<close> on the whole part.\<close>

definition startsWithMarkdownHeader :: "string \<Rightarrow> bool" where
  "startsWithMarkdownHeader s =
     (let hashes = length (takeWhile (\<lambda>c. c = CHR ''#'') s)
      in 1 \<le> hashes \<and> hashes \<le> 6 \<and> hashes < length s \<and> isWhitespace (s ! hashes))"

definition isCapsHeader :: "string \<Rightarrow> bool" where
  "isCapsHeader s =
     (length s \<ge> 4 \<and> isUpper (hd s) \<and> isUpper (last s)
      \<and> list_all (\<lambda>c. isUpper c \<or> isWhitespace c) (butlast (tl s)))"

text \<open>\<open>part.replace(/^#+\s*/, '')\<close>.\<close>

definition stripHashes :: "string \<Rightarrow> string" where
  "stripHashes s =
     (if s \<noteq> [] \<and> hd s = CHR ''#''
      then dropWhile isWhitespace (dropWhile (\<lambda>c. c = CHR ''#'') s)
      else s)"

record Section =
  section_header :: string
  section_content :: string

fun extractSections_loop :: "string list \<Rightarrow> string \<Rightarrow> Section list \<Rightarrow> Section list" where
  "extractSections_loop [] currentHeader sections = sections"
| "extractSections_loop (p # parts) currentHeader sections =
     (let part = trim p
      in if startsWithMarkdownHeader part \<or> isCapsHeader part
         then extractSections_loop parts (stripHashes part) sections
         else if part \<noteq> []
         then extractSections_loop parts currentHeader
                (sections @ [\<lparr>section_header = currentHeader, section_content = part\<rparr>])
         else extractSections_loop parts currentHeader sections)"

definition extractSections :: "string \<Rightarrow> Section list" where
  "extractSections s =
     (let sections = extractSections_loop (splitAtHeaders True [] s) [] []
      in if sections = [] \<and> trim s \<noteq> []
         then [\<lparr>section_header = [], section_content = trim s\<rparr>]
         else sections)"

subsection \<open>Semantic (\<open>strategies/semanticChunker.ts\<close>)\<close>

definition createChunkData :: "string \<Rightarrow> string option \<Rightarrow> IChunkData" where
  "createChunkData s h =
     \<lparr>chunk_content = trim s,
      charCount = int (length (trim s)),
      tokenCount = estimateTokens (trim s),
      metadata = noMetadata\<lparr>header := h\<rparr>\<rparr>"

text \<open>\<open>getLastSentences\<close>: the loop from the last sentence backwards, until the
  result would exceed \<open>targetLength\<close>.\<close>

fun getLastSentences_loop :: "string list \<Rightarrow> int \<Rightarrow> string \<Rightarrow> string" where
  "getLastSentences_loop [] targetLength result = result"
| "getLastSentences_loop (sentence # earlier) targetLength result =
     (let newResult = sentence @ (if result \<noteq> [] then '' '' @ result else [])
      in if int (length newResult) > targetLength then result
         else getLastSentences_loop earlier targetLength newResult)"

definition getLastSentences :: "string \<Rightarrow> int \<Rightarrow> string" where
  "getLastSentences s targetLength =
     getLastSentences_loop (rev (splitIntoSentences s)) targetLength []"

definition getSemanticOverlap :: "string \<Rightarrow> int \<Rightarrow> string" where
  "getSemanticOverlap s targetLength =
     (let paragraphs = splitIntoParagraphs s
      in if paragraphs \<noteq> [] \<and> int (length (last paragraphs)) \<le> targetLength
         then last paragraphs
         else getLastSentences s targetLength)"

text \<open>\<open>chunkBySentences\<close>: the loop state is the chunks so far and \<open>currentChunk\<close>.\<close>

definition chunkBySentences_body ::
  "int \<Rightarrow> int \<Rightarrow> int \<Rightarrow> IChunkData list \<times> string \<Rightarrow> string \<Rightarrow> IChunkData list \<times> string" where
  "chunkBySentences_body size' overlap minSize st sentence =
     (case st of (out, current) \<Rightarrow>
        if int (length current) + int (length sentence) + 1 > size'
        then
          let lastSentences = getLastSentences current overlap
          in (if int (length current) \<ge> minSize then out @ [createChunkData current None]
              else out,
              lastSentences @ (if lastSentences \<noteq> [] then '' '' else []) @ sentence)
        else (out, current @ (if current \<noteq> [] then '' '' else []) @ sentence))"

definition chunkBySentences :: "string \<Rightarrow> int \<Rightarrow> int \<Rightarrow> int \<Rightarrow> IChunkData list" where
  "chunkBySentences s size' overlap minSize =
     (case foldl (chunkBySentences_body size' overlap minSize) ([], [])
             (splitIntoSentences s) of
        (out, current) \<Rightarrow>
          if int (length current) \<ge> minSize then out @ [createChunkData current None]
          else out)"

text \<open>The loop over the paragraphs of one section.\<close>

definition semanticChunk_body ::
  "IChunkingOptions \<Rightarrow> string \<Rightarrow> IChunkData list \<times> string \<Rightarrow> string
     \<Rightarrow> IChunkData list \<times> string" where
  "semanticChunk_body options currentHeader st paragraph =
     (case st of (out, current) \<Rightarrow>
        let saved = (if int (length current) \<ge> minChunkSizeOf options
                     then out @ [createChunkData current (Some currentHeader)] else out)
        in if int (length paragraph) > chunkSize options
           then (saved @
                   map (\<lambda>sc. sc\<lparr>metadata := (metadata sc)\<lparr>header := Some currentHeader\<rparr>\<rparr>)
                     (chunkBySentences paragraph (chunkSize options) (chunkOverlap options)
                        (minChunkSizeOf options)),
                 [])
           else if int (length current) + int (length paragraph) + 2 > chunkSize options
           then
             let overlap = getSemanticOverlap current (chunkOverlap options)
             in (saved,
                 overlap @ (if overlap \<noteq> [] then [CHR 0x0A, CHR 0x0A] else []) @ paragraph)
           else (out, current @ (if current \<noteq> [] then [CHR 0x0A, CHR 0x0A] else []) @ paragraph))"

text \<open>The loop over the sections.\<close>

definition semanticChunk_section ::
  "IChunkingOptions \<Rightarrow> IChunkData list \<Rightarrow> Section \<Rightarrow> IChunkData list" where
  "semanticChunk_section options out sec =
     (case foldl (semanticChunk_body options (section_header sec)) (out, [])
             (splitIntoParagraphs (section_content sec)) of
        (out', current) \<Rightarrow>
          if int (length current) \<ge> minChunkSizeOf options
          then out' @ [createChunkData current (Some (section_header sec))]
          else out')"

definition semanticChunk :: "string \<Rightarrow> IChunkingOptions \<Rightarrow> IChunkData list" where
  "semanticChunk s options =
     foldl (semanticChunk_section options) [] (extractSections (cleanTextForChunking s))"

section \<open>Provider resilience core\<close>

text \<open>What one run of \<open>withRetry\<close> does besides returning or throwing: how often it
  invoked the operation, and the sleeps between the attempts. A back-off sleep is recorded
  by its attempt number (\<open>calculateBackoff(attempt)\<close> adds a random jitter), a rate-limit
  sleep by its \<open>retryAfterMs\<close>.\<close>

datatype Delay = RetryAfter int | Backoff int

record ('e, 'a) RetryRun =
  outcome :: "'e + 'a"
  calls :: nat
  sleeps :: "Delay list"

subsection \<open>Embedding providers (\<open>types/embadding.ts\<close>, \<open>BaseEmbeddingProvider\<close>)\<close>

text \<open>The values an embedding operation can throw: the three error classes of
  \<open>types/embadding.ts\<close> with their constructor arguments (\<open>EmbeddingError(message,
  provider, code, retryable, originalError?)\<close>, \<open>EmbeddingRateLimitError(provider,
  retryAfterMs?)\<close>, \<open>EmbeddingTimeoutError(provider)\<close>), and any other thrown value (a
  network failure of \<open>fetch\<close>, say), which is no instance of \<open>EmbeddingError\<close>.\<close>

datatype EmbThrown =
    EmbeddingError string string string bool "EmbThrown option"
  | EmbeddingRateLimitError string "int option"
  | EmbeddingTimeoutError string
  | ForeignError string

fun instanceofEmbeddingError :: "EmbThrown \<Rightarrow> bool" where
  "instanceofEmbeddingError (ForeignError m) = False"
| "instanceofEmbeddingError e = True"

fun retryable :: "EmbThrown \<Rightarrow> bool" where
  "retryable (EmbeddingError m p c r orig) = r"
| "retryable (EmbeddingRateLimitError p ms) = True"
| "retryable (EmbeddingTimeoutError p) = True"
| "retryable (ForeignError m) = False"

fun errorMessage :: "EmbThrown \<Rightarrow> string" where
  "errorMessage (EmbeddingError m p c r orig) = m"
| "errorMessage (EmbeddingRateLimitError p ms) = ''Rate limit exceeded''"
| "errorMessage (EmbeddingTimeoutError p) = ''Request timed out''"
| "errorMessage (ForeignError m) = m"

text \<open>The test \<open>error instanceof EmbeddingRateLimitError && error.retryAfterMs\<close>: a
  missing or zero \<open>retryAfterMs\<close> is falsy.\<close>

fun retryAfterMs :: "EmbThrown \<Rightarrow> int option" where
  "retryAfterMs (EmbeddingRateLimitError p (Some ms)) = (if ms \<noteq> 0 then Some ms else None)"
| "retryAfterMs e = None"

record EmbeddingProviderConfig =
  apiKey :: "string option"
  baseUrl :: "string option"
  defaultModel :: string
  dimensions :: int
  maxBatchSize :: int
  maxRetries :: int
  retryDelayMs :: int
  timeoutMs :: int

text \<open>The error thrown after the loop; \<open>pname\<close> is \<open>this.name\<close>.\<close>

definition maxRetriesExceeded ::
  "EmbeddingProviderConfig \<Rightarrow> string \<Rightarrow> EmbThrown option \<Rightarrow> EmbThrown" where
  "maxRetriesExceeded config pname lastError =
     EmbeddingError
       (''Failed after '' @ toString (maxRetries config + 1) @ '' attempts: '' @
          (case lastError of None \<Rightarrow> ''undefined'' | Some e \<Rightarrow> errorMessage e))
       pname ''MAX_RETRIES_EXCEEDED'' False lastError"

text \<open>\<open>BaseEmbeddingProvider.withRetry\<close>. The operation is an effectful closure:
  \<open>operation n\<close> is what its invocation number \<open>n\<close> (from 0) does, \<open>Inl\<close> the value it
  throws. The loop state is \<open>attempt\<close> and \<open>lastError\<close>; \<open>n\<close> counts the invocations
  made so far.\<close>

function withRetry_loop ::
  "EmbeddingProviderConfig \<Rightarrow> string \<Rightarrow> (nat \<Rightarrow> EmbThrown + 'a) \<Rightarrow> int
     \<Rightarrow> EmbThrown option \<Rightarrow> nat \<Rightarrow> Delay list \<Rightarrow> (EmbThrown, 'a) RetryRun" where
  "withRetry_loop config pname operation attempt lastError n slept =
     (if attempt \<le> maxRetries config then
        (case operation n of
           Inr v \<Rightarrow> \<lparr>outcome = Inr v, calls = n + 1, sleeps = slept\<rparr>
         | Inl error \<Rightarrow>
             if instanceofEmbeddingError error \<and> \<not> retryable error
             then \<lparr>outcome = Inl error, calls = n + 1, sleeps = slept\<rparr>
             else (case retryAfterMs error of
                     Some ms \<Rightarrow>
                       withRetry_loop config pname operation (attempt + 1) (Some error)
                         (n + 1) (slept @ [RetryAfter ms])
                   | None \<Rightarrow>
                       if attempt = maxRetries config
                       then \<lparr>outcome = Inl (maxRetriesExceeded config pname (Some error)),
                             calls = n + 1, sleeps = slept\<rparr>
                       else withRetry_loop config pname operation (attempt + 1) (Some error)
                              (n + 1) (slept @ [Backoff attempt])))
      else \<lparr>outcome = Inl (maxRetriesExceeded config pname lastError),
            calls = n, sleeps = slept\<rparr>)"
  by pat_completeness auto
termination
  by (relation "measure (\<lambda>(config, pname, operation, attempt, lastError, n, slept).
        nat (maxRetries config + 1 - attempt))") auto

declare withRetry_loop.simps [simp del]

definition withRetry ::
  "EmbeddingProviderConfig \<Rightarrow> string \<Rightarrow> (nat \<Rightarrow> EmbThrown + 'a)
     \<Rightarrow> (EmbThrown, 'a) RetryRun" where
  "withRetry config pname operation = withRetry_loop config pname operation 0 None 0 []"

subsection \<open>LLM providers (\<open>types/llm.ts\<close>, \<open>BaseLLMProvider\<close>)\<close>

text \<open>The error classes of \<open>types/llm.ts\<close>: \<open>LLMError(message, provider, code,
  retryable, originalError?)\<close>, \<open>LLMRateLimitError(provider, retryAfterMs?)\<close>,
  \<open>LLMContextLengthError(provider, maxTokens)\<close>, \<open>LLMContentFilterError(provider)\<close>,
  and any other thrown value.\<close>

datatype LLMThrown =
    LLMError string string string bool "LLMThrown option"
  | LLMRateLimitError string "int option"
  | LLMContextLengthError string int
  | LLMContentFilterError string
  | ForeignLLMError string

fun instanceofLLMError :: "LLMThrown \<Rightarrow> bool" where
  "instanceofLLMError (ForeignLLMError m) = False"
| "instanceofLLMError e = True"

fun llm_retryable :: "LLMThrown \<Rightarrow> bool" where
  "llm_retryable (LLMError m p c r orig) = r"
| "llm_retryable (LLMRateLimitError p ms) = True"
| "llm_retryable (LLMContextLengthError p n) = False"
| "llm_retryable (LLMContentFilterError p) = False"
| "llm_retryable (ForeignLLMError m) = False"

fun llm_message :: "LLMThrown \<Rightarrow> string" where
  "llm_message (LLMError m p c r orig) = m"
| "llm_message (LLMRateLimitError p ms) = ''Rate limit exceeded''"
| "llm_message (LLMContextLengthError p n) =
     ''Context length exceeded. Maximum: '' @ toString n @ '' tokens''"
| "llm_message (LLMContentFilterError p) = ''Content filtered by safety system''"
| "llm_message (ForeignLLMError m) = m"

fun llm_retryAfterMs :: "LLMThrown \<Rightarrow> int option" where
  "llm_retryAfterMs (LLMRateLimitError p (Some ms)) = (if ms \<noteq> 0 then Some ms else None)"
| "llm_retryAfterMs e = None"

record LLMProviderConfig =
  llm_apiKey :: string
  llm_baseUrl :: "string option"
  llm_defaultModel :: string
  llm_maxRetries :: int
  llm_retryDelayMs :: int
  llm_timeoutMs :: int

definition llm_maxRetriesExceeded ::
  "LLMProviderConfig \<Rightarrow> string \<Rightarrow> LLMThrown option \<Rightarrow> LLMThrown" where
  "llm_maxRetriesExceeded config pname lastError =
     LLMError
       (''Failed after '' @ toString (llm_maxRetries config + 1) @ '' attempts: '' @
          (case lastError of None \<Rightarrow> ''undefined'' | Some e \<Rightarrow> llm_message e))
       pname ''MAX_RETRIES_EXCEEDED'' False lastError"

text \<open>\<open>BaseLLMProvider.withRetry\<close>, the same loop over the LLM error classes.\<close>

function llm_withRetry_loop ::
  "LLMProviderConfig \<Rightarrow> string \<Rightarrow> (nat \<Rightarrow> LLMThrown + 'a) \<Rightarrow> int
     \<Rightarrow> LLMThrown option \<Rightarrow> nat \<Rightarrow> Delay list \<Rightarrow> (LLMThrown, 'a) RetryRun" where
  "llm_withRetry_loop config pname operation attempt lastError n slept =
     (if attempt \<le> llm_maxRetries config then
        (case operation n of
           Inr v \<Rightarrow> \<lparr>outcome = Inr v, calls = n + 1, sleeps = slept\<rparr>
         | Inl error \<Rightarrow>
             if instanceofLLMError error \<and> \<not> llm_retryable error
             then \<lparr>outcome = Inl error, calls = n + 1, sleeps = slept\<rparr>
             else (case llm_retryAfterMs error of
                     Some ms \<Rightarrow>
                       llm_withRetry_loop config pname operation (attempt + 1) (Some error)
                         (n + 1) (slept @ [RetryAfter ms])
                   | None \<Rightarrow>
                       if attempt = llm_maxRetries config
                       then \<lparr>outcome = Inl (llm_maxRetriesExceeded config pname (Some error)),
                             calls = n + 1, sleeps = slept\<rparr>
                       else llm_withRetry_loop config pname operation (attempt + 1)
                              (Some error) (n + 1) (slept @ [Backoff attempt])))
      else \<lparr>outcome = Inl (llm_maxRetriesExceeded config pname lastError),
            calls = n, sleeps = slept\<rparr>)"
  by pat_completeness auto
termination
  by (relation "measure (\<lambda>(config, pname, operation, attempt, lastError, n, slept).
        nat (llm_maxRetries config + 1 - attempt))") auto

declare llm_withRetry_loop.simps [simp del]

definition llm_withRetry ::
  "LLMProviderConfig \<Rightarrow> string \<Rightarrow> (nat \<Rightarrow> LLMThrown + 'a)
     \<Rightarrow> (LLMThrown, 'a) RetryRun" where
  "llm_withRetry config pname operation = llm_withRetry_loop config pname operation 0 None 0 []"

section \<open>Embedding providers: batching\<close>

text \<open>\<open>EmbeddingResult\<close> and \<open>EmbeddingResponse\<close> of \<open>types/embadding.ts\<close>. The
  components of a vector are JavaScript numbers; nothing here computes with them, so
  their type is a parameter.\<close>

record 'n EmbeddingResult =
  embedding :: "'n list"
  index :: int
  result_tokenCount :: "int option"

record Usage =
  promptTokens :: int
  totalTokens :: int

record 'n EmbeddingResponse =
  embeddings :: "'n EmbeddingResult list"
  model :: string
  resp_dimensions :: int
  usage :: "Usage option"

text \<open>\<open>BaseEmbeddingProvider.mergeResponses\<close>. The \<open>flatMap\<close> walks the embeddings of
  all responses in order and overwrites each \<open>index\<close> with \<open>currentIndex++\<close>.\<close>

fun reindex :: "int \<Rightarrow> 'n EmbeddingResult list \<Rightarrow> 'n EmbeddingResult list" where
  "reindex currentIndex [] = []"
| "reindex currentIndex (e # es) = e\<lparr>index := currentIndex\<rparr> # reindex (currentIndex + 1) es"

definition totalUsage :: "'n EmbeddingResponse list \<Rightarrow> Usage" where
  "totalUsage responses =
     foldl (\<lambda>acc r.
        \<lparr>promptTokens = promptTokens acc + (case usage r of None \<Rightarrow> 0 | Some u \<Rightarrow> promptTokens u),
         totalTokens = totalTokens acc + (case usage r of None \<Rightarrow> 0 | Some u \<Rightarrow> totalTokens u)\<rparr>)
       \<lparr>promptTokens = 0, totalTokens = 0\<rparr> responses"

fun mergeResponses :: "string \<Rightarrow> 'n EmbeddingResponse list \<Rightarrow> EmbThrown + 'n EmbeddingResponse" where
  "mergeResponses pname [] =
     Inl (EmbeddingError ''No responses to merge'' pname ''EMPTY_RESPONSE'' False None)"
| "mergeResponses pname [r] = Inr r"
| "mergeResponses pname (r # rs) =
     Inr \<lparr>embeddings = reindex 0 (concat (map embeddings (r # rs))),
          model = model r,
          resp_dimensions = resp_dimensions r,
          usage = Some (totalUsage (r # rs))\<rparr>"

text \<open>\<open>BaseEmbeddingProvider.processBatches\<close>. The first loop cuts \<open>items\<close> into slices of
  \<open>maxBatchSize\<close>; with \<open>maxBatchSize \<le> 0\<close> and a non-empty list it never ends. The second
  loop awaits the processor on one batch after the other, \<open>processor k batch\<close> being the
  outcome of its call number \<open>k\<close>; the first rejection ends the loop.\<close>

partial_function (option) makeBatches ::
  "int \<Rightarrow> 'a list \<Rightarrow> int \<Rightarrow> 'a list list \<Rightarrow> 'a list list option" where
  "makeBatches batchSize items i batches =
     (if i < int (length items)
      then makeBatches batchSize items (i + batchSize)
             (batches @ [slice items i (i + batchSize)])
      else Some batches)"

declare makeBatches.simps [code]

fun runBatches ::
  "(nat \<Rightarrow> 'a list \<Rightarrow> EmbThrown + 'n EmbeddingResponse) \<Rightarrow> nat \<Rightarrow> 'a list list
     \<Rightarrow> 'n EmbeddingResponse list \<Rightarrow> EmbThrown + 'n EmbeddingResponse list" where
  "runBatches processor k [] results = Inr results"
| "runBatches processor k (batch # rest) results =
     (case processor k batch of
        Inl e \<Rightarrow> Inl e
      | Inr result \<Rightarrow> runBatches processor (k + 1) rest (results @ [result]))"

definition processBatches ::
  "EmbeddingProviderConfig \<Rightarrow> string \<Rightarrow> 'a list
     \<Rightarrow> (nat \<Rightarrow> 'a list \<Rightarrow> EmbThrown + 'n EmbeddingResponse)
     \<Rightarrow> (EmbThrown + 'n EmbeddingResponse) option" where
  "processBatches config pname items processor =
     (case makeBatches (maxBatchSize config) items 0 [] of
        None \<Rightarrow> None
      | Some batches \<Rightarrow>
          Some (case runBatches processor 0 batches [] of
                  Inl e \<Rightarrow> Inl e
                | Inr results \<Rightarrow> mergeResponses pname results))"

subsection \<open>OpenAI (\<open>OpenAIEmbeddingProvider\<close>)\<close>

text \<open>The body of a successful response of the embeddings endpoint
  (\<open>OpenAIEmbeddingResponse\<close>).\<close>

record 'n OpenAIItem =
  item_index :: int
  item_embedding :: "'n list"

record 'n OpenAIEmbeddingResponse =
  data :: "'n OpenAIItem list"
  api_model :: string
  prompt_tokens :: int
  total_tokens :: int

text \<open>The response object built in \<open>embedBatchInternal\<close>;
  \<open>data.data[0]?.embedding.length || this.config.dimensions\<close> falls back to the
  configuration when there is no item or the first vector is empty.\<close>

definition openai_response ::
  "EmbeddingProviderConfig \<Rightarrow> 'n OpenAIEmbeddingResponse \<Rightarrow> 'n EmbeddingResponse" where
  "openai_response config d =
     \<lparr>embeddings = map (\<lambda>item. \<lparr>embedding = item_embedding item, index = item_index item,
                                result_tokenCount = None\<rparr>) (data d),
      model = api_model d,
      resp_dimensions =
        (case data d of
           [] \<Rightarrow> dimensions config
         | item # _ \<Rightarrow> if item_embedding item \<noteq> [] then int (length (item_embedding item))
                      else dimensions config),
      usage = Some \<lparr>promptTokens = prompt_tokens d, totalTokens = total_tokens d\<rparr>\<rparr>"

text \<open>\<open>embedBatchInternal\<close>: the request under \<open>withRetry\<close>. \<open>request n\<close> is what
  invocation \<open>n\<close> of the closure gets from the network after \<open>handleErrorResponse\<close>: a
  thrown error or the parsed body.\<close>

definition embedBatchInternal ::
  "EmbeddingProviderConfig \<Rightarrow> (nat \<Rightarrow> EmbThrown + 'n OpenAIEmbeddingResponse)
     \<Rightarrow> EmbThrown + 'n EmbeddingResponse" where
  "embedBatchInternal config request =
     outcome (withRetry config ''openai''
       (\<lambda>n. case request n of Inl e \<Rightarrow> Inl e | Inr d \<Rightarrow> Inr (openai_response config d)))"

text \<open>\<open>OpenAIEmbeddingProvider.embedBatch\<close>. \<open>api k batch n\<close> is the network's answer to
  invocation \<open>n\<close> of the request for \<open>batch\<close>, the call number \<open>k\<close> of
  \<open>embedBatchInternal\<close>. The result is \<open>None\<close> when the batching loop does not end.\<close>

definition openai_embedBatch ::
  "EmbeddingProviderConfig
     \<Rightarrow> (nat \<Rightarrow> string list \<Rightarrow> nat \<Rightarrow> EmbThrown + 'n OpenAIEmbeddingResponse)
     \<Rightarrow> string list \<Rightarrow> (EmbThrown + 'n EmbeddingResponse) option" where
  "openai_embedBatch config api texts =
     (if texts = []
      then Some (Inr \<lparr>embeddings = [], model = defaultModel config,
                      resp_dimensions = dimensions config, usage = None\<rparr>)
      else if int (length texts) > maxBatchSize config
      then processBatches config ''openai'' texts
             (\<lambda>k batch. embedBatchInternal config (api k batch))
      else Some (embedBatchInternal config (api 0 texts)))"

subsection \<open>Ollama (\<open>OllamaEmbeddingProvider\<close>)\<close>

text \<open>\<open>embed\<close>: one request under \<open>withRetry\<close>; \<open>request n\<close> is the thrown error or the
  \<open>data.embedding\<close> of invocation \<open>n\<close>.\<close>

definition ollama_embed ::
  "EmbeddingProviderConfig \<Rightarrow> (nat \<Rightarrow> EmbThrown + 'n list) \<Rightarrow> EmbThrown + 'n list" where
  "ollama_embed config request = outcome (withRetry config ''ollama'' request)"

text \<open>\<open>array.map((x, index) => ...)\<close>: the elements with their positions.\<close>

fun indexed :: "nat \<Rightarrow> 'a list \<Rightarrow> (nat \<times> 'a) list" where
  "indexed i [] = []"
| "indexed i (x # xs) = (i, x) # indexed (i + 1) xs"

text \<open>\<open>embedBatchNative\<close>: \<open>request n\<close> is the thrown error or \<open>data.embeddings\<close>.\<close>

definition embedBatchNative ::
  "EmbeddingProviderConfig \<Rightarrow> (nat \<Rightarrow> EmbThrown + 'n list list)
     \<Rightarrow> EmbThrown + 'n EmbeddingResponse" where
  "embedBatchNative config request =
     outcome (withRetry config ''ollama''
       (\<lambda>n. case request n of
               Inl e \<Rightarrow> Inl e
             | Inr vectors \<Rightarrow>
                 Inr \<lparr>embeddings = map (\<lambda>(i, v). \<lparr>embedding = v, index = int i,
                                                  result_tokenCount = None\<rparr>) (indexed 0 vectors),
                      model = defaultModel config,
                      resp_dimensions =
                        (case vectors of
                           [] \<Rightarrow> dimensions config
                         | v # _ \<Rightarrow> if v \<noteq> [] then int (length v) else dimensions config),
                      usage = None\<rparr>))"

text \<open>\<open>Promise.all\<close> over the mapped array: the values in the order of the array when
  every promise fulfils. When some reject, \<open>Promise.all\<close> rejects with the rejection that
  happens first in time, which the order of the array does not decide: \<open>firstRejection\<close>
  stands for that choice among the rejections (listed in array order), and nothing is
  assumed about it.\<close>

definition promiseAll :: "('e list \<Rightarrow> 'e) \<Rightarrow> ('e + 'a) list \<Rightarrow> 'e + 'a list" where
  "promiseAll firstRejection ps =
     (case List.map_filter (\<lambda>p. case p of Inl e \<Rightarrow> Some e | Inr v \<Rightarrow> None) ps of
        [] \<Rightarrow> Inr (List.map_filter (\<lambda>p. case p of Inl e \<Rightarrow> None | Inr v \<Rightarrow> Some v) ps)
      | e # es \<Rightarrow> Inl (firstRejection (e # es)))"

text \<open>\<open>embedBatchSequential\<close>: \<open>embedApi i text n\<close> is the network's answer to invocation
  \<open>n\<close> of the \<open>embed\<close> request for the text at position \<open>i\<close>. The requests of the
  different positions run concurrently; each has its own sequence of answers.\<close>

definition embedBatchSequential ::
  "EmbeddingProviderConfig \<Rightarrow> (EmbThrown list \<Rightarrow> EmbThrown)
     \<Rightarrow> (nat \<Rightarrow> string \<Rightarrow> nat \<Rightarrow> EmbThrown + 'n list)
     \<Rightarrow> string list \<Rightarrow> EmbThrown + 'n EmbeddingResponse" where
  "embedBatchSequential config firstRejection embedApi texts =
     (case promiseAll firstRejection
             (map (\<lambda>(i, text).
                     case ollama_embed config (embedApi i text) of
                       Inl e \<Rightarrow> Inl e
                     | Inr v \<Rightarrow> Inr \<lparr>embedding = v, index = int i, result_tokenCount = None\<rparr>)
                (indexed 0 texts)) of
        Inl e \<Rightarrow> Inl e
      | Inr results \<Rightarrow>
          Inr \<lparr>embeddings = results,
               model = defaultModel config,
               resp_dimensions =
                 (case results of
                    [] \<Rightarrow> dimensions config
                  | r # _ \<Rightarrow> if embedding r \<noteq> [] then int (length (embedding r))
                           else dimensions config),
               usage = None\<rparr>)"

text \<open>\<open>OllamaEmbeddingProvider.embedBatch\<close>: the native batch call, and on any failure
  of it the sequential fallback.\<close>

definition ollama_embedBatch ::
  "EmbeddingProviderConfig \<Rightarrow> (EmbThrown list \<Rightarrow> EmbThrown)
     \<Rightarrow> (nat \<Rightarrow> EmbThrown + 'n list list)
     \<Rightarrow> (nat \<Rightarrow> string \<Rightarrow> nat \<Rightarrow> EmbThrown + 'n list)
     \<Rightarrow> string list \<Rightarrow> EmbThrown + 'n EmbeddingResponse" where
  "ollama_embedBatch config firstRejection nativeApi embedApi texts =
     (if texts = []
      then Inr \<lparr>embeddings = [], model = defaultModel config,
                resp_dimensions = dimensions config, usage = None\<rparr>
      else (case embedBatchNative config nativeApi of
              Inr response \<Rightarrow> Inr response
            | Inl error \<Rightarrow> embedBatchSequential config firstRejection embedApi texts))"

section \<open>LLM providers: message translation and finish reasons\<close>

text \<open>\<open>types/llm.ts\<close>: \<open>MessageRole\<close>, \<open>ChatMessage\<close> and the finish reasons of
  \<open>ChatCompletionResponse\<close> (\<open>null\<close> is \<open>None\<close>).\<close>

datatype MessageRole = System | User | Assistant

record ChatMessage =
  role :: MessageRole
  content :: string
  name :: "string option"

datatype FinishReason = Stop | Length | ContentFilter | Error

text \<open>\<open>AnthropicMessage\<close>: the role is the \<open>ChatMessage\<close> role under a type cast.\<close>

record AnthropicMessage =
  am_role :: MessageRole
  am_content :: string

text \<open>\<open>AnthropicLLMProvider.formatMessages\<close>: the \<open>for\<close> loop over the messages, with
  the two mutable locals \<open>systemPrompt\<close> (\<open>undefined\<close> is \<open>None\<close>) and
  \<open>formattedMessages\<close>. The test \<open>systemPrompt ? ... : ...\<close> is JavaScript truthiness:
  \<open>undefined\<close> and the empty string both take the second branch.\<close>

fun formatMessages_loop ::
  "ChatMessage list \<Rightarrow> string option \<Rightarrow> AnthropicMessage list
    \<Rightarrow> string option \<times> AnthropicMessage list" where
  "formatMessages_loop [] systemPrompt formattedMessages = (systemPrompt, formattedMessages)"
| "formatMessages_loop (message # rest) systemPrompt formattedMessages =
     (if role message = System
      then formatMessages_loop rest
             (Some (case systemPrompt of
                      None \<Rightarrow> content message
                    | Some sp \<Rightarrow>
                        if sp \<noteq> [] then sp @ [CHR 0x0A, CHR 0x0A] @ content message
                        else content message))
             formattedMessages
      else formatMessages_loop rest systemPrompt
             (formattedMessages @ [\<lparr>am_role = role message, am_content = content message\<rparr>]))"

definition formatMessages :: "ChatMessage list \<Rightarrow> string option \<times> AnthropicMessage list" where
  "formatMessages messages =
     (case formatMessages_loop messages None [] of
        (systemPrompt, formattedMessages) \<Rightarrow>
          (systemPrompt,
           if formattedMessages \<noteq> [] \<and> am_role (hd formattedMessages) \<noteq> User
           then \<lparr>am_role = User, am_content = ''Hello''\<rparr> # formattedMessages
           else formattedMessages))"

text \<open>\<open>AnthropicLLMProvider.mapFinishReason(reason: string | null)\<close>.\<close>

definition anthropic_mapFinishReason :: "string option \<Rightarrow> FinishReason option" where
  "anthropic_mapFinishReason reason =
     (if reason = Some ''end_turn'' \<or> reason = Some ''stop_sequence'' then Some Stop
      else if reason = Some ''max_tokens'' then Some Length
      else None)"

text \<open>\<open>GoogleLLMProvider.mapFinishReason(reason: string)\<close>.\<close>

definition google_mapFinishReason :: "string \<Rightarrow> FinishReason option" where
  "google_mapFinishReason reason =
     (if reason = ''STOP'' then Some Stop
      else if reason = ''MAX_TOKENS'' then Some Length
      else if reason = ''SAFETY'' \<or> reason = ''RECITATION'' then Some ContentFilter
      else None)"

text \<open>\<open>OllamaLLMProvider.mapFinishReason(reason?: string)\<close>.\<close>

definition ollama_mapFinishReason :: "string option \<Rightarrow> FinishReason option" where
  "ollama_mapFinishReason reason =
     (if reason = Some ''stop'' then Some Stop
      else if reason = Some ''length'' then Some Length
      else None)"

section \<open>Finish-reason normalisation\<close>

text \<open>
  Claim C8. Whatever string the vendor sends, the Anthropic, Google and Ollama mappings
  answer \<open>stop\<close>, \<open>length\<close>, \<open>content_filter\<close> or \<open>null\<close> (never \<open>error\<close>).
  Anthropic: \<open>end_turn\<close> and \<open>stop_sequence\<close> give \<open>stop\<close>, \<open>max_tokens\<close> gives
  \<open>length\<close>. Google: \<open>STOP\<close> gives \<open>stop\<close>, \<open>MAX_TOKENS\<close> gives \<open>length\<close>,
  \<open>SAFETY\<close> and \<open>RECITATION\<close> give \<open>content_filter\<close>. Every other reason gives
  \<open>null\<close>.
\<close>

theorem mapFinishReason_normalised:
  "anthropic_mapFinishReason a \<in> {Some Stop, Some Length, Some ContentFilter, None}
   \<and> google_mapFinishReason g \<in> {Some Stop, Some Length, Some ContentFilter, None}
   \<and> ollama_mapFinishReason a \<in> {Some Stop, Some Length, Some ContentFilter, None}
   \<and> anthropic_mapFinishReason (Some ''end_turn'') = Some Stop
   \<and> anthropic_mapFinishReason (Some ''stop_sequence'') = Some Stop
   \<and> anthropic_mapFinishReason (Some ''max_tokens'') = Some Length
   \<and> google_mapFinishReason ''STOP'' = Some Stop
   \<and> google_mapFinishReason ''MAX_TOKENS'' = Some Length
   \<and> google_mapFinishReason ''SAFETY'' = Some ContentFilter
   \<and> google_mapFinishReason ''RECITATION'' = Some ContentFilter
   \<and> (a \<notin> {Some ''end_turn'', Some ''stop_sequence'', Some ''max_tokens''}
        \<longrightarrow> anthropic_mapFinishReason a = None)
   \<and> (g \<notin> {''STOP'', ''MAX_TOKENS'', ''SAFETY'', ''RECITATION''}
        \<longrightarrow> google_mapFinishReason g = None)"
  by (simp add: anthropic_mapFinishReason_def google_mapFinishReason_def
      ollama_mapFinishReason_def)

theorem mapFinishReason_normalised_witness:
  "Some ''pause_turn'' \<notin> {Some ''end_turn'', Some ''stop_sequence'', Some ''max_tokens''}
   \<and> anthropic_mapFinishReason (Some ''pause_turn'') = None
   \<and> ''OTHER'' \<notin> {''STOP'', ''MAX_TOKENS'', ''SAFETY'', ''RECITATION''}
   \<and> google_mapFinishReason ''OTHER'' = None"
  using mapFinishReason_normalised [of "Some ''pause_turn''" "''OTHER''"]
  by simp

section \<open>Anthropic message translation\<close>

lemma join_Cons: "join sep (x # xs) = (if xs = [] then x else x @ sep @ join sep xs)"
  by (cases xs) auto

text \<open>The loop started with a non-empty system prompt appends every later system content
  behind a blank line.\<close>

lemma formatMessages_loop_truthy:
  "s \<noteq> [] \<Longrightarrow>
   formatMessages_loop ms (Some s) fm =
     (Some (join ''\<newline>\<newline>'' (s # map content (filter (\<lambda>m. role m = System) ms))),
      fm @ map (\<lambda>m. \<lparr>am_role = role m, am_content = content m\<rparr>)
             (filter (\<lambda>m. role m \<noteq> System) ms))"
proof (induction ms arbitrary: s fm)
  case Nil
  then show ?case by simp
next
  case (Cons m ms)
  have ne: "s @ ''\<newline>\<newline>'' @ content m \<noteq> []"
    using Cons.prems by simp
  show ?case
    using Cons.prems Cons.IH [OF ne] Cons.IH [OF Cons.prems]
    by (simp add: join_Cons)
qed

text \<open>Started with \<open>undefined\<close> or the empty string, the loop overwrites the prompt until a
  system message with non-empty content arrives.\<close>

lemma formatMessages_loop_falsy:
  "sp = None \<or> sp = Some [] \<Longrightarrow>
   formatMessages_loop ms sp fm =
     (if filter (\<lambda>m. role m = System) ms = [] then sp
      else Some (join ''\<newline>\<newline>''
             (dropWhile (\<lambda>s. s = []) (map content (filter (\<lambda>m. role m = System) ms)))),
      fm @ map (\<lambda>m. \<lparr>am_role = role m, am_content = content m\<rparr>)
             (filter (\<lambda>m. role m \<noteq> System) ms))"
proof (induction ms arbitrary: sp fm)
  case Nil
  then show ?case by simp
next
  case (Cons m ms)
  show ?case
  proof (cases "role m = System")
    case False
    then show ?thesis
      using Cons.IH [OF Cons.prems] by simp
  next
    case sys: True
    show ?thesis
    proof (cases "content m = []")
      case True
      have "formatMessages_loop (m # ms) sp fm = formatMessages_loop ms (Some []) fm"
        using sys True Cons.prems by auto
      also have "\<dots> =
        (if filter (\<lambda>m. role m = System) ms = [] then Some []
         else Some (join ''\<newline>\<newline>''
                (dropWhile (\<lambda>s. s = []) (map content (filter (\<lambda>m. role m = System) ms)))),
         fm @ map (\<lambda>m. \<lparr>am_role = role m, am_content = content m\<rparr>)
                (filter (\<lambda>m. role m \<noteq> System) ms))"
        by (rule Cons.IH) simp
      finally show ?thesis
        using sys True by simp
    next
      case False
      have "formatMessages_loop (m # ms) sp fm = formatMessages_loop ms (Some (content m)) fm"
        using sys Cons.prems by auto
      then show ?thesis
        using sys False by (simp add: formatMessages_loop_truthy)
    qed
  qed
qed

text \<open>
  Claim C10, as the code has it. The system prompt is \<open>undefined\<close> when there is no
  system message; otherwise it is the system contents in their original order joined by a
  blank line, after the empty contents that come before the first non-empty one are
  discarded (an empty accumulated prompt is overwritten, not extended). The other
  messages keep their order and roles. A synthetic user message \<open>Hello\<close> is put in front
  exactly when that remaining list is non-empty and does not start with a user message;
  when every input message is a system message the returned list is empty.
\<close>

theorem formatMessages_spec:
  "formatMessages messages =
     (if filter (\<lambda>m. role m = System) messages = [] then None
      else Some (join ''\<newline>\<newline>''
             (dropWhile (\<lambda>s. s = [])
                (map content (filter (\<lambda>m. role m = System) messages)))),
      if filter (\<lambda>m. role m \<noteq> System) messages \<noteq> []
         \<and> role (hd (filter (\<lambda>m. role m \<noteq> System) messages)) \<noteq> User
      then \<lparr>am_role = User, am_content = ''Hello''\<rparr> #
           map (\<lambda>m. \<lparr>am_role = role m, am_content = content m\<rparr>)
             (filter (\<lambda>m. role m \<noteq> System) messages)
      else map (\<lambda>m. \<lparr>am_role = role m, am_content = content m\<rparr>)
             (filter (\<lambda>m. role m \<noteq> System) messages))
   \<and> ((\<forall>m \<in> set messages. role m = System) \<longrightarrow> snd (formatMessages messages) = [])"
proof -
  let ?rest = "filter (\<lambda>m. role m \<noteq> System) messages"
  have hd_conv: "?rest \<noteq> [] \<Longrightarrow>
      am_role (hd (map (\<lambda>m. \<lparr>am_role = role m, am_content = content m\<rparr>) ?rest))
        = role (hd ?rest)"
    by (simp add: hd_map)
  have eq: "formatMessages messages =
     (if filter (\<lambda>m. role m = System) messages = [] then None
      else Some (join ''\<newline>\<newline>''
             (dropWhile (\<lambda>s. s = [])
                (map content (filter (\<lambda>m. role m = System) messages)))),
      if ?rest \<noteq> [] \<and> role (hd ?rest) \<noteq> User
      then \<lparr>am_role = User, am_content = ''Hello''\<rparr> #
           map (\<lambda>m. \<lparr>am_role = role m, am_content = content m\<rparr>) ?rest
      else map (\<lambda>m. \<lparr>am_role = role m, am_content = content m\<rparr>) ?rest)"
  proof (cases "?rest = []")
    case True
    then show ?thesis
      by (simp add: formatMessages_def formatMessages_loop_falsy)
  next
    case False
    then show ?thesis
      using hd_conv [OF False]
      by (simp add: formatMessages_def formatMessages_loop_falsy)
  qed
  have "(\<forall>m \<in> set messages. role m = System) \<Longrightarrow> ?rest = []"
    by (simp add: filter_empty_conv)
  with eq show ?thesis by simp
qed

theorem formatMessages_spec_witness:
  "snd (formatMessages [\<lparr>role = System, content = ''a'', name = None\<rparr>,
                           \<lparr>role = System, content = ''b'', name = None\<rparr>]) = []
   \<and> fst (formatMessages [\<lparr>role = System, content = ''a'', name = None\<rparr>,
                           \<lparr>role = System, content = ''b'', name = None\<rparr>])
       = Some ''a\<newline>\<newline>b''"
  using formatMessages_spec [of "[\<lparr>role = System, content = ''a'', name = None\<rparr>,
                                  \<lparr>role = System, content = ''b'', name = None\<rparr>]"]
  by simp

text \<open>The claim as written (the prompt is the blank-line join of all system contents)
  fails when an empty system content comes first: the join starts with a blank line, the
  code's prompt does not.\<close>

theorem formatMessages_join_counterexample:
  "fst (formatMessages [\<lparr>role = System, content = [], name = None\<rparr>,
                        \<lparr>role = System, content = ''a'', name = None\<rparr>])
     \<noteq> Some (join ''\<newline>\<newline>''
          (map content (filter (\<lambda>m. role m = System)
             [\<lparr>role = System, content = [], name = None\<rparr>,
              \<lparr>role = System, content = ''a'', name = None\<rparr>])))"
  by (simp add: formatMessages_def)

section \<open>Retry bound and fatal errors\<close>

text \<open>From any attempt within the budget, an operation that never succeeds and never
  throws a non-retryable error is invoked once per remaining attempt; the loop then throws
  \<open>MAX_RETRIES_EXCEEDED\<close> around the error of the last invocation.\<close>

lemma withRetry_loop_exhausts:
  assumes fails: "\<And>k. \<exists>e. operation k = Inl e
                    \<and> \<not> (instanceofEmbeddingError e \<and> \<not> retryable e)"
  shows "attempt \<le> maxRetries config \<Longrightarrow>
     calls (withRetry_loop config pname operation attempt lastError n slept)
       = n + nat (maxRetries config + 1 - attempt)
     \<and> (\<exists>e. operation (n + nat (maxRetries config - attempt)) = Inl e
           \<and> outcome (withRetry_loop config pname operation attempt lastError n slept)
               = Inl (maxRetriesExceeded config pname (Some e)))"
proof (induction "nat (maxRetries config - attempt)" arbitrary: attempt lastError n slept)
  case 0
  then have last: "attempt = maxRetries config" by simp
  obtain e where e: "operation n = Inl e"
      "\<not> (instanceofEmbeddingError e \<and> \<not> retryable e)"
    using fails [of n] by blast
  show ?case
    using last e
    by (auto split: option.split
        simp: withRetry_loop.simps [of config pname operation "maxRetries config"]
          withRetry_loop.simps [of config pname operation "maxRetries config + 1"])
next
  case (Suc d)
  then have lt: "attempt < maxRetries config" by simp
  obtain e where e: "operation n = Inl e"
      "\<not> (instanceofEmbeddingError e \<and> \<not> retryable e)"
    using fails [of n] by blast
  have d: "d = nat (maxRetries config - (attempt + 1))" using Suc.hyps(2) by simp
  have le: "attempt + 1 \<le> maxRetries config" using lt by simp
  have idx: "n + 1 + nat (maxRetries config - (attempt + 1))
      = n + nat (maxRetries config - attempt)"
    using lt by simp
  have cnt: "n + 1 + nat (maxRetries config + 1 - (attempt + 1))
      = n + nat (maxRetries config + 1 - attempt)"
    using lt by simp
  note IH = Suc.hyps(1) [OF d le]
  show ?case
  proof (cases "retryAfterMs e")
    case None
    have step: "withRetry_loop config pname operation attempt lastError n slept
       = withRetry_loop config pname operation (attempt + 1) (Some e) (n + 1)
           (slept @ [Backoff attempt])"
      using lt e None by (auto simp: withRetry_loop.simps [of config pname operation attempt])
    show ?thesis
      unfolding step using IH [of "Some e" "n + 1" "slept @ [Backoff attempt]"]
      unfolding idx cnt by simp
  next
    case (Some ms)
    have step: "withRetry_loop config pname operation attempt lastError n slept
       = withRetry_loop config pname operation (attempt + 1) (Some e) (n + 1)
           (slept @ [RetryAfter ms])"
      using lt e Some by (auto simp: withRetry_loop.simps [of config pname operation attempt])
    show ?thesis
      unfolding step using IH [of "Some e" "n + 1" "slept @ [RetryAfter ms]"]
      unfolding idx cnt by simp
  qed
qed

lemma llm_withRetry_loop_exhausts:
  assumes fails: "\<And>k. \<exists>e. operation k = Inl e
                    \<and> \<not> (instanceofLLMError e \<and> \<not> llm_retryable e)"
  shows "attempt \<le> llm_maxRetries config \<Longrightarrow>
     calls (llm_withRetry_loop config pname operation attempt lastError n slept)
       = n + nat (llm_maxRetries config + 1 - attempt)
     \<and> (\<exists>e. operation (n + nat (llm_maxRetries config - attempt)) = Inl e
           \<and> outcome (llm_withRetry_loop config pname operation attempt lastError n slept)
               = Inl (llm_maxRetriesExceeded config pname (Some e)))"
proof (induction "nat (llm_maxRetries config - attempt)" arbitrary: attempt lastError n slept)
  case 0
  then have last: "attempt = llm_maxRetries config" by simp
  obtain e where e: "operation n = Inl e"
      "\<not> (instanceofLLMError e \<and> \<not> llm_retryable e)"
    using fails [of n] by blast
  show ?case
    using last e
    by (auto split: option.split
        simp: llm_withRetry_loop.simps [of config pname operation "llm_maxRetries config"]
          llm_withRetry_loop.simps [of config pname operation "llm_maxRetries config + 1"])
next
  case (Suc d)
  then have lt: "attempt < llm_maxRetries config" by simp
  obtain e where e: "operation n = Inl e"
      "\<not> (instanceofLLMError e \<and> \<not> llm_retryable e)"
    using fails [of n] by blast
  have d: "d = nat (llm_maxRetries config - (attempt + 1))" using Suc.hyps(2) by simp
  have le: "attempt + 1 \<le> llm_maxRetries config" using lt by simp
  have idx: "n + 1 + nat (llm_maxRetries config - (attempt + 1))
      = n + nat (llm_maxRetries config - attempt)"
    using lt by simp
  have cnt: "n + 1 + nat (llm_maxRetries config + 1 - (attempt + 1))
      = n + nat (llm_maxRetries config + 1 - attempt)"
    using lt by simp
  note IH = Suc.hyps(1) [OF d le]
  show ?case
  proof (cases "llm_retryAfterMs e")
    case None
    have step: "llm_withRetry_loop config pname operation attempt lastError n slept
       = llm_withRetry_loop config pname operation (attempt + 1) (Some e) (n + 1)
           (slept @ [Backoff attempt])"
      using lt e None
      by (auto simp: llm_withRetry_loop.simps [of config pname operation attempt])
    show ?thesis
      unfolding step using IH [of "Some e" "n + 1" "slept @ [Backoff attempt]"]
      unfolding idx cnt by simp
  next
    case (Some ms)
    have step: "llm_withRetry_loop config pname operation attempt lastError n slept
       = llm_withRetry_loop config pname operation (attempt + 1) (Some e) (n + 1)
           (slept @ [RetryAfter ms])"
      using lt e Some
      by (auto simp: llm_withRetry_loop.simps [of config pname operation attempt])
    show ?thesis
      unfolding step using IH [of "Some e" "n + 1" "slept @ [RetryAfter ms]"]
      unfolding idx cnt by simp
  qed
qed

text \<open>
  Claim C2. With \<open>maxRetries \<ge> 0\<close>, an operation that throws a retryable error (any thrown
  value other than an error marked non-retryable) at every invocation is invoked exactly
  \<open>maxRetries + 1\<close> times; \<open>withRetry\<close> then throws an error with code
  \<open>MAX_RETRIES_EXCEEDED\<close> and \<open>retryable = false\<close> whose \<open>originalError\<close> is the error of
  the last invocation. This holds for the embedding core and for the LLM core.
\<close>

theorem withRetry_retry_bound:
  assumes "0 \<le> maxRetries config"
    and "\<And>k. \<exists>e. operation k = Inl e \<and> \<not> (instanceofEmbeddingError e \<and> \<not> retryable e)"
    and "0 \<le> llm_maxRetries lconfig"
    and "\<And>k. \<exists>e. loperation k = Inl e \<and> \<not> (instanceofLLMError e \<and> \<not> llm_retryable e)"
  shows "calls (withRetry config pname operation) = nat (maxRetries config + 1)
     \<and> (\<exists>e m. operation (nat (maxRetries config)) = Inl e
           \<and> outcome (withRetry config pname operation)
               = Inl (EmbeddingError m pname ''MAX_RETRIES_EXCEEDED'' False (Some e)))
     \<and> calls (llm_withRetry lconfig lname loperation) = nat (llm_maxRetries lconfig + 1)
     \<and> (\<exists>e m. loperation (nat (llm_maxRetries lconfig)) = Inl e
           \<and> outcome (llm_withRetry lconfig lname loperation)
               = Inl (LLMError m lname ''MAX_RETRIES_EXCEEDED'' False (Some e)))"
proof -
  have emb: "calls (withRetry config pname operation) = nat (maxRetries config + 1)
     \<and> (\<exists>e. operation (nat (maxRetries config)) = Inl e
           \<and> outcome (withRetry config pname operation)
               = Inl (maxRetriesExceeded config pname (Some e)))"
    using withRetry_loop_exhausts [of operation 0 config pname None 0 "[]", OF assms(2)] assms(1)
    by (simp add: withRetry_def)
  have llm: "calls (llm_withRetry lconfig lname loperation) = nat (llm_maxRetries lconfig + 1)
     \<and> (\<exists>e. loperation (nat (llm_maxRetries lconfig)) = Inl e
           \<and> outcome (llm_withRetry lconfig lname loperation)
               = Inl (llm_maxRetriesExceeded lconfig lname (Some e)))"
    using llm_withRetry_loop_exhausts [of loperation 0 lconfig lname None 0 "[]", OF assms(4)]
      assms(3)
    by (simp add: llm_withRetry_def)
  from emb llm show ?thesis
    unfolding maxRetriesExceeded_def llm_maxRetriesExceeded_def by blast
qed

theorem withRetry_retry_bound_witness:
  "calls (withRetry
       \<lparr>apiKey = None, baseUrl = None, defaultModel = ''m'', dimensions = 3, maxBatchSize = 2,
        maxRetries = 3, retryDelayMs = 10, timeoutMs = 1000\<rparr>
       ''openai'' (\<lambda>k. Inl (EmbeddingTimeoutError ''openai'') :: EmbThrown + nat)) = 4
   \<and> calls (llm_withRetry
       \<lparr>llm_apiKey = ''k'', llm_baseUrl = None, llm_defaultModel = ''m'',
        llm_maxRetries = 3, llm_retryDelayMs = 10, llm_timeoutMs = 1000\<rparr>
       ''anthropic'' (\<lambda>k. Inl (LLMRateLimitError ''anthropic'' (Some 500)) :: LLMThrown + nat)) = 4"
proof -
  let ?c = "\<lparr>apiKey = None, baseUrl = None, defaultModel = ''m'', dimensions = 3,
        maxBatchSize = 2, maxRetries = 3, retryDelayMs = 10, timeoutMs = 1000\<rparr>"
  let ?l = "\<lparr>llm_apiKey = ''k'', llm_baseUrl = None, llm_defaultModel = ''m'',
        llm_maxRetries = 3, llm_retryDelayMs = 10, llm_timeoutMs = 1000\<rparr>"
  let ?op = "\<lambda>k::nat. Inl (EmbeddingTimeoutError ''openai'') :: EmbThrown + nat"
  let ?lop = "\<lambda>k::nat. Inl (LLMRateLimitError ''anthropic'' (Some 500)) :: LLMThrown + nat"
  have h1: "0 \<le> maxRetries ?c" by simp
  have h2: "\<And>k. \<exists>e. ?op k = Inl e \<and> \<not> (instanceofEmbeddingError e \<and> \<not> retryable e)"
    by simp
  have h3: "0 \<le> llm_maxRetries ?l" by simp
  have h4: "\<And>k. \<exists>e. ?lop k = Inl e \<and> \<not> (instanceofLLMError e \<and> \<not> llm_retryable e)"
    by simp
  show ?thesis
    using withRetry_retry_bound [of ?c ?op ?l ?lop "''openai''" "''anthropic''", OF h1 h2 h3 h4]
    by simp
qed

text \<open>
  Claim C6. With \<open>maxRetries \<ge> 0\<close>, when the first invocation throws an error marked
  non-retryable, \<open>withRetry\<close> invokes the operation once, sleeps never, and throws that very
  error, not a \<open>MAX_RETRIES_EXCEEDED\<close> wrapper. This holds for both cores.
\<close>

theorem withRetry_fatal_unwrapped:
  assumes "0 \<le> maxRetries config"
    and "operation 0 = Inl e" and "instanceofEmbeddingError e" and "\<not> retryable e"
    and "0 \<le> llm_maxRetries lconfig"
    and "loperation 0 = Inl le" and "instanceofLLMError le" and "\<not> llm_retryable le"
  shows "withRetry config pname operation = \<lparr>outcome = Inl e, calls = 1, sleeps = []\<rparr>
     \<and> llm_withRetry lconfig lname loperation = \<lparr>outcome = Inl le, calls = 1, sleeps = []\<rparr>"
  using assms
  by (simp add: withRetry_def llm_withRetry_def
      withRetry_loop.simps [of config pname operation 0]
      llm_withRetry_loop.simps [of lconfig lname loperation 0])

theorem withRetry_fatal_unwrapped_witness:
  "withRetry
       \<lparr>apiKey = None, baseUrl = None, defaultModel = ''m'', dimensions = 3, maxBatchSize = 2,
        maxRetries = 3, retryDelayMs = 10, timeoutMs = 1000\<rparr>
       ''openai''
       (\<lambda>k. Inl (EmbeddingError ''OpenAI authentication error: bad key'' ''openai''
                   ''HTTP_401'' False None) :: EmbThrown + nat)
     = \<lparr>outcome = Inl (EmbeddingError ''OpenAI authentication error: bad key'' ''openai''
                         ''HTTP_401'' False None),
        calls = 1, sleeps = []\<rparr>
   \<and> llm_withRetry
       \<lparr>llm_apiKey = ''k'', llm_baseUrl = None, llm_defaultModel = ''m'',
        llm_maxRetries = 3, llm_retryDelayMs = 10, llm_timeoutMs = 1000\<rparr>
       ''anthropic'' (\<lambda>k. Inl (LLMContentFilterError ''anthropic'') :: LLMThrown + nat)
     = \<lparr>outcome = Inl (LLMContentFilterError ''anthropic''), calls = 1, sleeps = []\<rparr>"
proof -
  let ?c = "\<lparr>apiKey = None, baseUrl = None, defaultModel = ''m'', dimensions = 3,
        maxBatchSize = 2, maxRetries = 3, retryDelayMs = 10, timeoutMs = 1000\<rparr>"
  let ?l = "\<lparr>llm_apiKey = ''k'', llm_baseUrl = None, llm_defaultModel = ''m'',
        llm_maxRetries = 3, llm_retryDelayMs = 10, llm_timeoutMs = 1000\<rparr>"
  let ?e = "EmbeddingError ''OpenAI authentication error: bad key'' ''openai''
                   ''HTTP_401'' False None"
  let ?op = "\<lambda>k::nat. Inl ?e :: EmbThrown + nat"
  let ?lop = "\<lambda>k::nat. Inl (LLMContentFilterError ''anthropic'') :: LLMThrown + nat"
  show ?thesis
    using withRetry_fatal_unwrapped [of ?c ?op ?e ?l ?lop "LLMContentFilterError ''anthropic''"
        "''openai''" "''anthropic''"]
    by simp
qed

section \<open>Order of the embeddings of a batch\<close>

lemma slice_window:
  "0 \<le> i \<Longrightarrow> 0 < m \<Longrightarrow> slice xs i (i + m) = take (nat m) (drop (nat i) xs)"
  by (auto simp: slice_def Let_def min_def max_def)

lemma makeBatches_result:
  assumes m: "0 < m"
  shows "0 \<le> i \<Longrightarrow>
    \<exists>new. makeBatches m items i batches = Some (batches @ new)
         \<and> concat new = drop (nat i) items
         \<and> (int (length items) - i > m \<longrightarrow> 2 \<le> length new)"
proof (induction "nat (int (length items) - i)" arbitrary: i batches rule: less_induct)
  case less
  show ?case
  proof (cases "i < int (length items)")
    case False
    then show ?thesis
      using less.prems m by (subst makeBatches.simps) simp
  next
    case True
    let ?b = "take (nat m) (drop (nat i) items)"
    have dec: "nat (int (length items) - (i + m)) < nat (int (length items) - i)"
      using True m by simp
    have nonneg: "0 \<le> i + m" using less.prems m by simp
    obtain new where new: "makeBatches m items (i + m) (batches @ [?b]) = Some ((batches @ [?b]) @ new)"
        "concat new = drop (nat (i + m)) items"
        "int (length items) - (i + m) > m \<longrightarrow> 2 \<le> length new"
      using less.hyps [OF dec nonneg, of "batches @ [?b]"] by blast
    have step: "makeBatches m items i batches = makeBatches m items (i + m) (batches @ [?b])"
      using True less.prems m by (subst makeBatches.simps) (simp add: slice_window)
    have cat: "concat (?b # new) = drop (nat i) items"
    proof -
      have e: "drop (nat (i + m)) items = drop (nat m) (drop (nat i) items)"
        using less.prems m by (simp add: nat_add_distrib add.commute)
      have "concat (?b # new) = ?b @ drop (nat m) (drop (nat i) items)"
        using new(2) e by (simp only: concat.simps)
      then show ?thesis by (simp only: append_take_drop_id)
    qed
    have two: "int (length items) - i > m \<longrightarrow> 2 \<le> length (?b # new)"
    proof
      assume big: "int (length items) - i > m"
      then have "i + m < int (length items)" by simp
      then have more: "drop (nat (i + m)) items \<noteq> []"
        using nonneg by simp
      then have "new \<noteq> []" using new(2) by auto
      then show "2 \<le> length (?b # new)" by (cases new) auto
    qed
    show ?thesis
      using step new(1) cat two by (intro exI [of _ "?b # new"]) simp
  qed
qed

lemma runBatches_result:
  "runBatches processor k bs acc = Inr rs \<Longrightarrow>
     \<exists>new. rs = acc @ new \<and> list_all2 (\<lambda>b r. \<exists>k'. processor k' b = Inr r) bs new"
proof (induction bs arbitrary: k acc)
  case Nil
  then show ?case by simp
next
  case (Cons b bs)
  from Cons.prems obtain r where r: "processor k b = Inr r"
    and rest: "runBatches processor (k + 1) bs (acc @ [r]) = Inr rs"
    by (auto split: sum.splits)
  from Cons.IH [OF rest] obtain new where "rs = (acc @ [r]) @ new"
      "list_all2 (\<lambda>b r. \<exists>k'. processor k' b = Inr r) bs new"
    by blast
  with r show ?case
    by (intro exI [of _ "r # new"]) auto
qed

lemma reindex_index: "map index (reindex c es) = map (\<lambda>j. c + int j) [0..<length es]"
proof (induction es arbitrary: c)
  case Nil
  then show ?case by simp
next
  case (Cons e es)
  have "map (\<lambda>j. c + int j) [0..<Suc (length es)]
      = c # map (\<lambda>j. c + 1 + int j) [0..<length es]"
    by (simp add: upt_rec [of 0] map_Suc_upt [symmetric] del: upt_Suc)
  with Cons.IH [of "c + 1"] show ?case by simp
qed

lemma length_reindex [simp]: "length (reindex c es) = length es"
  by (induction es arbitrary: c) auto

lemma reindex_embedding: "map embedding (reindex c es) = map embedding es"
  by (induction es arbitrary: c) auto

lemma withRetry_loop_success:
  "outcome (withRetry_loop config pname operation attempt lastError n slept) = Inr v
     \<Longrightarrow> \<exists>k. operation k = Inr v"
proof (induction config pname operation attempt lastError n slept rule: withRetry_loop.induct)
  case (1 config pname operation attempt lastError n slept)
  show ?case
  proof (cases "attempt \<le> maxRetries config")
    case False
    with "1.prems" show ?thesis
      by (simp add: withRetry_loop.simps [of config pname operation attempt])
  next
    case True
    show ?thesis
    proof (cases "operation n")
      case (Inr w)
      with True "1.prems" show ?thesis
        by (auto simp: withRetry_loop.simps [of config pname operation attempt])
    next
      case (Inl e)
      show ?thesis
        using True Inl "1.prems" "1.IH"
        by (auto simp: withRetry_loop.simps [of config pname operation attempt]
            split: if_splits option.splits)
    qed
  qed
qed

lemma embedBatchInternal_success:
  assumes "embedBatchInternal config request = Inr r"
  shows "\<exists>n d. request n = Inr d \<and> r = openai_response config d"
proof -
  from assms obtain k where
    k: "(case request k of Inl e \<Rightarrow> Inl e | Inr d \<Rightarrow> Inr (openai_response config d)) = Inr r"
    unfolding embedBatchInternal_def withRetry_def
    by (blast dest: withRetry_loop_success)
  then show ?thesis
    by (cases "request k") auto
qed


lemma mergeResponses_many:
  "2 \<le> length rs \<Longrightarrow> mergeResponses pname rs = Inr r \<Longrightarrow>
     embeddings r = reindex 0 (concat (map embeddings rs))"
  by (cases "(pname, rs)" rule: mergeResponses.cases) auto

lemma processBatches_terminates:
  "0 < maxBatchSize config \<Longrightarrow> \<exists>res. processBatches config pname items processor = Some res"
  using makeBatches_result [of "maxBatchSize config" 0 items "[]"]
  by (auto simp: processBatches_def)

text \<open>What a returned response of \<open>processBatches\<close> is made of when there are at least
  two batches: the responses of the batches in order, each the answer of the processor
  to its batch, with the index fields overwritten by position.\<close>

lemma processBatches_shape:
  assumes pos: "0 < maxBatchSize config"
    and big: "maxBatchSize config < int (length items)"
    and res: "processBatches config pname items processor = Some (Inr r)"
  shows "\<exists>bs rs. concat bs = items
     \<and> list_all2 (\<lambda>b r. \<exists>k. processor k b = Inr r) bs rs
     \<and> embeddings r = reindex 0 (concat (map embeddings rs))"
proof -
  obtain bs where bs: "makeBatches (maxBatchSize config) items 0 [] = Some bs"
      "concat bs = items" "2 \<le> length bs"
    using makeBatches_result [OF pos, of 0 items "[]"] big by auto
  from res bs(1) obtain rs where rs: "runBatches processor 0 bs [] = Inr rs"
      "mergeResponses pname rs = Inr r"
    by (auto simp: processBatches_def split: sum.splits)
  from runBatches_result [OF rs(1)]
  have all2: "list_all2 (\<lambda>b r. \<exists>k'. processor k' b = Inr r) bs rs" by simp
  then have len: "length rs = length bs" by (simp add: list_all2_lengthD)
  have r: "embeddings r = reindex 0 (concat (map embeddings rs))"
    using mergeResponses_many [OF _ rs(2)] len bs(3) by simp
  from bs(2) all2 r show ?thesis by blast
qed

lemma processBatches_index:
  assumes pos: "0 < maxBatchSize config"
    and big: "maxBatchSize config < int (length items)"
    and proc: "\<And>k b r. processor k b = Inr r \<Longrightarrow> length (embeddings r) = length b"
    and res: "processBatches config pname items processor = Some (Inr r)"
  shows "map index (embeddings r) = map int [0..<length items]"
proof -
  from processBatches_shape [OF pos big res] obtain bs rs where bs: "concat bs = items"
    and all2: "list_all2 (\<lambda>b r. \<exists>k. processor k b = Inr r) bs rs"
    and r: "embeddings r = reindex 0 (concat (map embeddings rs))"
    by blast
  have "list_all2 (\<lambda>b r. length (embeddings r) = length b) bs rs"
    using all2 proc by (auto elim!: list_all2_mono)
  then have "length (concat (map embeddings rs)) = length (concat bs)"
    by (induction rule: list_all2_induct) auto
  then show ?thesis
    using reindex_index [of 0 "concat (map embeddings rs)"] bs by (simp add: r)
qed

lemma processBatches_order:
  assumes pos: "0 < maxBatchSize config"
    and big: "maxBatchSize config < int (length items)"
    and proc: "\<And>k b r. processor k b = Inr r \<Longrightarrow> map embedding (embeddings r) = map vec b"
    and res: "processBatches config pname items processor = Some (Inr r)"
  shows "map embedding (embeddings r) = map vec items"
proof -
  from processBatches_shape [OF pos big res] obtain bs rs where bs: "concat bs = items"
    and all2: "list_all2 (\<lambda>b r. \<exists>k. processor k b = Inr r) bs rs"
    and r: "embeddings r = reindex 0 (concat (map embeddings rs))"
    by blast
  have "list_all2 (\<lambda>b r. map embedding (embeddings r) = map vec b) bs rs"
    using all2 proc by (auto elim!: list_all2_mono)
  then have "map embedding (concat (map embeddings rs)) = map vec (concat bs)"
    by (induction rule: list_all2_induct) auto
  then show ?thesis
    using bs by (simp add: r reindex_embedding)
qed

lemma promiseAll_success: "promiseAll firstRejection ps = Inr vs \<Longrightarrow> ps = map Inr vs"
proof -
  assume run: "promiseAll firstRejection ps = Inr vs"
  let ?rejected = "List.map_filter (\<lambda>p. case p of Inl e \<Rightarrow> Some e | Inr v \<Rightarrow> None) ps"
  let ?fulfilled = "List.map_filter (\<lambda>p. case p of Inl e \<Rightarrow> None | Inr v \<Rightarrow> Some v) ps"
  from run have none: "?rejected = []" and vs: "vs = ?fulfilled"
    by (auto simp: promiseAll_def split: list.splits)
  have "?rejected = [] \<Longrightarrow> ps = map Inr ?fulfilled"
  proof (induction ps)
    case Nil
    then show ?case by (simp add: List.map_filter_simps)
  next
    case (Cons p ps)
    then show ?case
      by (cases p) (simp_all add: List.map_filter_simps)
  qed
  with none vs show ?thesis by simp
qed

lemma length_indexed [simp]: "length (indexed i xs) = length xs"
  by (induction xs arbitrary: i) auto

lemma nth_indexed: "j < length xs \<Longrightarrow> indexed i xs ! j = (i + j, xs ! j)"
proof (induction xs arbitrary: i j)
  case Nil
  then show ?case by simp
next
  case (Cons x xs)
  then show ?case by (cases j) auto
qed

lemma embedBatchSequential_order:
  assumes "embedBatchSequential config firstRejection embedApi texts = Inr r"
  shows "map index (embeddings r) = map int [0..<length texts]
     \<and> (\<forall>i < length texts.
           ollama_embed config (embedApi i (texts ! i)) = Inr (embedding (embeddings r ! i)))"
proof -
  let ?f = "\<lambda>(i, text). case ollama_embed config (embedApi i text) of
                       Inl e \<Rightarrow> Inl e
                     | Inr v \<Rightarrow> Inr \<lparr>embedding = v, index = int i, result_tokenCount = None\<rparr>"
  from assms obtain results
    where all: "promiseAll firstRejection (map ?f (indexed 0 texts)) = Inr results"
    and r: "embeddings r = results"
    by (auto simp: embedBatchSequential_def split: sum.splits)
  from promiseAll_success [OF all]
  have eq: "map ?f (indexed 0 texts) = map Inr results" .
  from arg_cong [OF eq, of length] have len: "length results = length texts"
    by simp
  have each: "\<forall>i < length texts. ?f (i, texts ! i) = Inr (results ! i)"
  proof (intro allI impI)
    fix i assume i: "i < length texts"
    have "map ?f (indexed 0 texts) ! i = ?f (indexed 0 texts ! i)"
      using i by simp
    also have "\<dots> = ?f (i, texts ! i)" using i by (simp add: nth_indexed)
    finally show "?f (i, texts ! i) = Inr (results ! i)"
      using eq i len by simp
  qed
  have idx: "\<forall>i < length texts. index (results ! i) = int i
       \<and> ollama_embed config (embedApi i (texts ! i)) = Inr (embedding (results ! i))"
  proof (intro allI impI)
    fix i assume i: "i < length texts"
    with each have "?f (i, texts ! i) = Inr (results ! i)" by simp
    then show "index (results ! i) = int i
       \<and> ollama_embed config (embedApi i (texts ! i)) = Inr (embedding (results ! i))"
      by (cases "ollama_embed config (embedApi i (texts ! i))") (auto dest: sym)
  qed
  have "map index results = map int [0..<length texts]"
    using idx len by (intro nth_equalityI) auto
  with idx r show ?thesis by simp
qed

text \<open>
  Claim C1, as the code has it. Sub-batch path: with \<open>0 < maxBatchSize < N\<close>,
  \<open>embedBatch\<close> of the OpenAI provider ends (it returns or throws). If every successful
  answer of the endpoint has one item per text of its request, a returned response has
  the index fields \<open>0, 1, ..., N-1\<close> in this order: \<open>mergeResponses\<close> numbers the
  embeddings by position and discards the index fields the endpoint sent. Its \<open>i\<close>-th
  embedding is the vector of the \<open>i\<close>-th input text when, in addition, every answer
  lists its items in the order of its request (\<open>vec\<close> names the vector of a text);
  nothing in the code sorts by the endpoint's index field. Fallback path: when Ollama's
  native batch call fails and \<open>embedBatch\<close> returns, the index fields are
  \<open>0, 1, ..., N-1\<close>, and the \<open>i\<close>-th embedding is what the \<open>embed\<close> call for the \<open>i\<close>-th
  text returned.
\<close>

theorem embedBatch_order:
  assumes "0 < maxBatchSize config"
    and "maxBatchSize config < int (length texts)"
    and "\<And>k b n d. api k b n = Inr d \<Longrightarrow> length (data d) = length b"
    and "embedBatchNative oconfig nativeApi = Inl e"
  shows "(\<exists>res. openai_embedBatch config api texts = Some res
            \<and> (\<forall>r. res = Inr r \<longrightarrow>
                  map index (embeddings r) = map int [0..<length texts]
                  \<and> ((\<forall>k b n d. api k b n = Inr d
                          \<longrightarrow> map item_embedding (data d) = map vec b)
                       \<longrightarrow> map embedding (embeddings r) = map vec texts)))
     \<and> (\<forall>r'. ollama_embedBatch oconfig firstRejection nativeApi embedApi otexts = Inr r'
            \<longrightarrow> map index (embeddings r') = map int [0..<length otexts]
                \<and> (\<forall>i < length otexts.
                      ollama_embed oconfig (embedApi i (otexts ! i))
                        = Inr (embedding (embeddings r' ! i))))"
proof -
  have ne: "texts \<noteq> []" using assms(1,2) by auto
  let ?processor = "\<lambda>k batch. embedBatchInternal config (api k batch)"
  have unfold: "openai_embedBatch config api texts
      = processBatches config ''openai'' texts ?processor"
    using ne assms(2) by (simp add: openai_embedBatch_def)
  obtain res where res: "openai_embedBatch config api texts = Some res"
    using processBatches_terminates [OF assms(1), of "''openai''" texts ?processor] unfold
    by auto
  have answer: "\<exists>n d. api k b n = Inr d \<and> r = openai_response config d"
    if "embedBatchInternal config (api k b) = Inr r" for k b r
    using that by (rule embedBatchInternal_success)
  have proc_len: "length (embeddings r) = length b"
    if "embedBatchInternal config (api k b) = Inr r" for k b r
  proof -
    from answer [OF that] obtain n d where "api k b n = Inr d" "r = openai_response config d"
      by blast
    then show ?thesis
      using assms(3) [of k b n d] by (simp add: openai_response_def)
  qed
  have open_ai: "map index (embeddings r) = map int [0..<length texts]
       \<and> ((\<forall>k b n d. api k b n = Inr d \<longrightarrow> map item_embedding (data d) = map vec b)
            \<longrightarrow> map embedding (embeddings r) = map vec texts)"
    if r: "res = Inr r" for r
  proof -
    have run: "processBatches config ''openai'' texts ?processor = Some (Inr r)"
      using res r unfold by simp
    have idx: "map index (embeddings r) = map int [0..<length texts]"
      by (rule processBatches_index [OF assms(1,2) _ run]) (rule proc_len)
    have emb: "map embedding (embeddings r) = map vec texts"
      if order: "\<forall>k b n d. api k b n = Inr d \<longrightarrow> map item_embedding (data d) = map vec b"
    proof (rule processBatches_order [OF assms(1,2) _ run])
      fix k b r' assume "embedBatchInternal config (api k b) = Inr r'"
      from answer [OF this] obtain n d where d: "api k b n = Inr d"
        and r': "r' = openai_response config d" by blast
      from order d have "map item_embedding (data d) = map vec b" by blast
      then show "map embedding (embeddings r') = map vec b"
        by (simp add: r' openai_response_def comp_def)
    qed
    from idx emb show ?thesis by blast
  qed
  have ollama: "map index (embeddings r') = map int [0..<length otexts]
     \<and> (\<forall>i < length otexts.
           ollama_embed oconfig (embedApi i (otexts ! i)) = Inr (embedding (embeddings r' ! i)))"
    if run: "ollama_embedBatch oconfig firstRejection nativeApi embedApi otexts = Inr r'" for r'
  proof (cases "otexts = []")
    case True
    with run show ?thesis by (auto simp: ollama_embedBatch_def)
  next
    case False
    with assms(4) run
    have "embedBatchSequential oconfig firstRejection embedApi otexts = Inr r'"
      by (simp add: ollama_embedBatch_def)
    then show ?thesis by (rule embedBatchSequential_order)
  qed
  from res open_ai ollama show ?thesis by blast
qed

theorem embedBatch_order_witness:
  "(\<exists>r. openai_embedBatch
         \<lparr>apiKey = None, baseUrl = None, defaultModel = ''m'', dimensions = 1,
          maxBatchSize = 2, maxRetries = 3, retryDelayMs = 10, timeoutMs = 1000\<rparr>
         (\<lambda>k b n. Inr \<lparr>data = map (\<lambda>t. \<lparr>item_index = 0, item_embedding = [int (length t)]\<rparr>) b,
                        api_model = ''m'', prompt_tokens = 1, total_tokens = 1\<rparr>)
         [''a'', ''bb'', ''ccc'', ''dddd'', ''eeeee'']
       = Some (Inr r)
       \<and> map index (embeddings r) = [0, 1, 2, 3, 4]
       \<and> map embedding (embeddings r) = [[1], [2], [3], [4], [5]])
   \<and> (\<exists>r. ollama_embedBatch
         \<lparr>apiKey = None, baseUrl = None, defaultModel = ''m'', dimensions = 1,
          maxBatchSize = 2, maxRetries = 3, retryDelayMs = 10, timeoutMs = 1000\<rparr>
         hd
         (\<lambda>n. Inl (EmbeddingError ''Ollama batch API error: 404 - not found'' ''ollama''
                     ''HTTP_404'' False None))
         (\<lambda>i t n. Inr [int (length t)])
         [''a'', ''bb'', ''ccc'']
       = Inr r
       \<and> map index (embeddings r) = [0, 1, 2]
       \<and> map embedding (embeddings r) = [[1], [2], [3]])"
proof -
  let ?c = "\<lparr>apiKey = None, baseUrl = None, defaultModel = ''m'', dimensions = 1,
          maxBatchSize = 2, maxRetries = 3, retryDelayMs = 10, timeoutMs = 1000\<rparr>"
  let ?api = "\<lambda>(k::nat) (b::string list) (n::nat).
       Inr \<lparr>data = map (\<lambda>t. \<lparr>item_index = 0, item_embedding = [int (length t)]\<rparr>) b,
            api_model = ''m'', prompt_tokens = 1, total_tokens = 1\<rparr>
         :: EmbThrown + int OpenAIEmbeddingResponse"
  let ?texts = "[''a'', ''bb'', ''ccc'', ''dddd'', ''eeeee'']"
  let ?native = "\<lambda>n::nat. Inl (EmbeddingError ''Ollama batch API error: 404 - not found''
                     ''ollama'' ''HTTP_404'' False None) :: EmbThrown + int list list"
  let ?embed = "\<lambda>(i::nat) (t::string) (n::nat). Inr [int (length t)] :: EmbThrown + int list"
  let ?otexts = "[''a'', ''bb'', ''ccc'']"
  let ?vec = "\<lambda>t::string. [int (length t)]"
  have h1: "0 < maxBatchSize ?c" by simp
  have h2: "maxBatchSize ?c < int (length ?texts)" by simp
  have h3: "\<And>k b n d. ?api k b n = Inr d \<Longrightarrow> length (data d) = length b"
    by auto
  have order: "\<forall>k b n d. ?api k b n = Inr d \<longrightarrow> map item_embedding (data d) = map ?vec b"
    by (auto simp: comp_def)
  have h4: "embedBatchNative ?c ?native
      = Inl (EmbeddingError ''Ollama batch API error: 404 - not found''
                     ''ollama'' ''HTTP_404'' False None)"
    by (simp add: embedBatchNative_def withRetry_def withRetry_loop.simps)
  note inst = embedBatch_order [of ?c ?texts ?api _ ?native _ ?vec hd ?embed ?otexts,
      OF h1 h2 h3 h4]
  let ?r = "\<lparr>embeddings =
          [\<lparr>embedding = [1], index = 0, result_tokenCount = None\<rparr>,
           \<lparr>embedding = [2], index = 1, result_tokenCount = None\<rparr>,
           \<lparr>embedding = [3], index = 2, result_tokenCount = None\<rparr>,
           \<lparr>embedding = [4], index = 3, result_tokenCount = None\<rparr>,
           \<lparr>embedding = [5], index = 4, result_tokenCount = None\<rparr>],
          model = ''m'', resp_dimensions = 1,
          usage = Some \<lparr>promptTokens = 3, totalTokens = 3\<rparr>\<rparr> :: int EmbeddingResponse"
  let ?r' = "\<lparr>embeddings =
        [\<lparr>embedding = [1], index = 0, result_tokenCount = None\<rparr>,
         \<lparr>embedding = [2], index = 1, result_tokenCount = None\<rparr>,
         \<lparr>embedding = [3], index = 2, result_tokenCount = None\<rparr>],
        model = ''m'', resp_dimensions = 1, usage = None\<rparr> :: int EmbeddingResponse"
  have v1: "openai_embedBatch ?c ?api ?texts = Some (Inr ?r)"
    by (simp add: openai_embedBatch_def processBatches_def makeBatches.simps slice_def
        embedBatchInternal_def withRetry_def withRetry_loop.simps openai_response_def
        totalUsage_def)
  have v2: "ollama_embedBatch ?c hd ?native ?embed ?otexts = Inr ?r'"
    by (simp add: ollama_embedBatch_def h4 embedBatchSequential_def ollama_embed_def
        withRetry_def withRetry_loop.simps promiseAll_def List.map_filter_simps)
  show ?thesis
    using inst order v1 v2 by simp
qed

text \<open>The claim as written promises the \<open>i\<close>-th embedding for the \<open>i\<close>-th text on the
  strength of the index alone. When the endpoint answers each sub-batch with the right
  index fields but lists the items in reverse, the merged response has the index fields
  \<open>0, 1, 2, 3\<close> and the vectors of the texts 2, 1, 4, 3: the first embedding is not
  the vector \<open>[1]\<close> of the first text.\<close>

theorem embedBatch_order_counterexample:
  "\<exists>r. openai_embedBatch
         \<lparr>apiKey = None, baseUrl = None, defaultModel = ''m'', dimensions = 1,
          maxBatchSize = 2, maxRetries = 3, retryDelayMs = 10, timeoutMs = 1000\<rparr>
         (\<lambda>k b n. Inr \<lparr>data = rev (map (\<lambda>(i, t). \<lparr>item_index = int i,
                                                     item_embedding = [int (length t)]\<rparr>)
                                     (indexed 0 b)),
                        api_model = ''m'', prompt_tokens = 1, total_tokens = 1\<rparr>)
         [''a'', ''bb'', ''ccc'', ''dddd'']
       = Some (Inr r)
       \<and> map index (embeddings r) = [0, 1, 2, 3]
       \<and> map embedding (embeddings r) = [[2], [1], [4], [3]]
       \<and> map embedding (embeddings r)
           \<noteq> map (\<lambda>t. [int (length t)]) [''a'', ''bb'', ''ccc'', ''dddd'']"
  by (simp add: openai_embedBatch_def processBatches_def makeBatches.simps slice_def
      embedBatchInternal_def withRetry_def withRetry_loop.simps openai_response_def
      totalUsage_def)

section \<open>Texts without white space\<close>

text \<open>Cleaning and trimming leave a text without white space as it is, and
  \<open>findBreakPoint\<close> finds no better break in a text without line feeds, spaces and
  sentence punctuation.\<close>

lemma normalizeLineBreaks_id: "CHR 0x0D \<notin> set s \<Longrightarrow> normalizeLineBreaks s = s"
  by (induction s rule: normalizeLineBreaks.induct) auto

lemma collapseBlanks_id: "\<forall>c \<in> set s. \<not> isBlank c \<Longrightarrow> collapseBlanks s = s"
  by (induction s rule: collapseBlanks.induct) auto

lemma limitLineFeeds_id: "CHR 0x0A \<notin> set s \<Longrightarrow> limitLineFeeds k s = s"
  by (induction s arbitrary: k) auto

lemma dropWhile_none: "\<forall>c \<in> set s. \<not> P c \<Longrightarrow> dropWhile P s = s"
  by (cases s) auto

lemma trim_id: "\<forall>c \<in> set s. \<not> isWhitespace c \<Longrightarrow> trim s = s"
  by (simp add: trim_def dropWhile_none)

lemma isBlank_isWhitespace: "isBlank c \<Longrightarrow> isWhitespace c"
  by (auto simp: isBlank_def isWhitespace_def)

lemma cleanTextForChunking_id:
  assumes "\<forall>c \<in> set s. \<not> isWhitespace c"
  shows "cleanTextForChunking s = s"
proof -
  have "CHR 0x0D \<notin> set s" "CHR 0x0A \<notin> set s"
    using assms by (auto simp: isWhitespace_def)
  moreover have "\<forall>c \<in> set s. \<not> isBlank c"
    using assms isBlank_isWhitespace by blast
  ultimately show ?thesis
    using assms
    by (simp add: cleanTextForChunking_def normalizeLineBreaks_id collapseBlanks_id
        limitLineFeeds_id trim_id)
qed

lemma substring_replicate:
  "substring (replicate n c) a b
     = replicate (nat (max (min (max a 0) (int n)) (min (max b 0) (int n))
                        - min (min (max a 0) (int n)) (min (max b 0) (int n)))) c"
  by (auto simp: substring_def Let_def min_def max_def)

lemma lastIndexOf_down_absent:
  assumes "needle \<noteq> []" and "hd needle \<notin> set s"
  shows "lastIndexOf_down s needle k = - 1"
proof -
  have no: "take (length needle) (drop j s) \<noteq> needle" for j
  proof
    assume eq: "take (length needle) (drop j s) = needle"
    have "hd needle \<in> set needle" using assms(1) by simp
    then have "hd needle \<in> set (take (length needle) (drop j s))" using eq by simp
    then have "hd needle \<in> set s"
      by (meson in_set_dropD in_set_takeD)
    with assms(2) show False by simp
  qed
  show ?thesis
  proof (induction k)
    case 0
    then show ?case using no [of 0] by simp
  next
    case (Suc k)
    then show ?case using no [of "Suc k"] by simp
  qed
qed


lemma sentenceEnds_absent: "\<forall>c \<in> set s. \<not> isSentencePunct c \<Longrightarrow> sentenceEnds i s = []"
  by (induction s arbitrary: i) auto


lemma set_substring: "set (substring s a b) \<subseteq> set s"
  unfolding substring_def Let_def
  by (meson in_set_dropD in_set_takeD subsetI)


lemma lastIndexOf_absent:
  "needle \<noteq> [] \<Longrightarrow> hd needle \<notin> set s \<Longrightarrow> lastIndexOf s needle k = - 1"
  unfolding lastIndexOf_def by (rule lastIndexOf_down_absent)

lemma findBreakPoint_plain:
  assumes plain: "\<forall>c \<in> set s. c \<noteq> CHR 0x0A \<and> c \<noteq> CHR 0x20 \<and> \<not> isSentencePunct c"
    and lt: "targetPos < int (length s)"
  shows "findBreakPoint s targetPos searchRange = targetPos"
proof -
  define sub where "sub = substring s (max 0 (targetPos - searchRange))
                (min (int (length s)) (targetPos + searchRange))"
  have subset: "set sub \<subseteq> set s"
    unfolding sub_def by (rule set_substring)
  have nl: "CHR 0x0A \<notin> set sub" and sp: "CHR 0x20 \<notin> set sub"
    and punct: "\<forall>c \<in> set sub. \<not> isSentencePunct c"
    using plain subset by blast+
  have 1: "lastIndexOf sub [CHR 0x0A, CHR 0x0A] k = - 1" for k
    by (rule lastIndexOf_absent) (simp_all add: nl)
  have 2: "lastIndexOf sub [CHR 0x20] k = - 1" for k
    by (rule lastIndexOf_absent) (simp_all add: sp)
  have 3: "sentenceEnds 0 sub = []"
    by (rule sentenceEnds_absent) (rule punct)
  have "findBreakPoint s targetPos searchRange =
     (if targetPos \<ge> int (length s) then int (length s)
      else
        let start = max 0 (targetPos - searchRange);
            relativeTarget = targetPos - start;
            paragraphBreak = lastIndexOf sub [CHR 0x0A, CHR 0x0A] (relativeTarget + searchRange);
            bestSentenceEnd =
              foldl (\<lambda>best pos. if pos \<le> relativeTarget + searchRange then pos else best)
                (- 1) (sentenceEnds 0 sub);
            wordBoundary = lastIndexOf sub [CHR 0x20] (relativeTarget + 20)
        in if paragraphBreak \<noteq> - 1 \<and> paragraphBreak > relativeTarget - searchRange
           then start + paragraphBreak + 2
           else if bestSentenceEnd \<noteq> - 1 \<and> bestSentenceEnd > relativeTarget - searchRange
           then start + bestSentenceEnd
           else if wordBoundary \<noteq> - 1 then start + wordBoundary + 1
           else targetPos)"
    unfolding findBreakPoint_def sub_def Let_def by (rule refl)
  also have "\<dots> = targetPos"
    using lt unfolding 1 2 3 Let_def by simp
  finally show ?thesis .
qed

section \<open>The fixed-size chunker\<close>

text \<open>A set of loop states that the loop body never leaves, and in which the loop
  condition holds, is a set of states from which the loop never returns.\<close>

lemma fixedChunk_loop_diverges:
  assumes inv: "\<And>st. I st \<Longrightarrow>
      startPos st < int (length c) \<and> I (fixedChunk_body c options p st)"
    and start: "I st"
  shows "fixedChunk_loop c options p st = None"
proof -
  have never: "c' = c \<and> options' = options \<and> p' = p \<longrightarrow> \<not> I st'"
    if run: "fixedChunk_loop c' options' p' st' = Some y" for c' options' p' st' y
  proof (rule fixedChunk_loop.raw_induct
      [OF _ run, where P = "\<lambda>c' o' p' st' y. c' = c \<and> o' = options \<and> p' = p \<longrightarrow> \<not> I st'"])
    fix loop c' o' p' st' y
    assume IH: "\<And>c' o' p' st' y. loop c' o' p' st' = Some y
        \<Longrightarrow> c' = c \<and> o' = options \<and> p' = p \<longrightarrow> \<not> I st'"
      and step: "(if startPos st' < int (length c')
                  then loop c' o' p' (fixedChunk_body c' o' p' st')
                  else Some (chunks st')) = Some y"
    show "c' = c \<and> o' = options \<and> p' = p \<longrightarrow> \<not> I st'"
    proof (intro impI notI)
      assume eq: "c' = c \<and> o' = options \<and> p' = p" and i: "I st'"
      from inv [OF i] have lt: "startPos st' < int (length c)"
        and next_i: "I (fixedChunk_body c options p st')" by auto
      from step eq lt have "loop c options p (fixedChunk_body c options p st') = Some y"
        by simp
      from IH [OF this] next_i show False by simp
    qed
  qed
  show ?thesis
  proof (cases "fixedChunk_loop c options p st")
    case None
    then show ?thesis .
  next
    case (Some y)
    from never [OF this] start show ?thesis by simp
  qed
qed


subsection \<open>The 2500-character scenario\<close>

lemma fixedChunk_2500:
  "fixedChunk (replicate 2500 CHR ''A'')
     \<lparr>strategy = Fixed, chunkSize = 1000, chunkOverlap = 200, minChunkSize = Some 100,
      maxChunkSize = None, preserveSentences = Some False\<rparr> None
   = Some
      [\<lparr>chunk_content = replicate 1000 CHR ''A'', charCount = 1000, tokenCount = 250,
        metadata = noMetadata\<lparr>startChar := Some 0, endChar := Some 1000\<rparr>\<rparr>,
       \<lparr>chunk_content = replicate 1000 CHR ''A'', charCount = 1000, tokenCount = 250,
        metadata = noMetadata\<lparr>startChar := Some 800, endChar := Some 1800\<rparr>\<rparr>,
       \<lparr>chunk_content = replicate 900 CHR ''A'', charCount = 900, tokenCount = 225,
        metadata = noMetadata\<lparr>startChar := Some 1600, endChar := Some 2600\<rparr>\<rparr>,
       \<lparr>chunk_content = replicate 100 CHR ''A'', charCount = 100, tokenCount = 25,
        metadata = noMetadata\<lparr>startChar := Some 2400, endChar := Some 3400\<rparr>\<rparr>]"
proof -
  have ws: "\<not> isWhitespace CHR ''A''" by (simp add: isWhitespace_def)
  have clean: "cleanTextForChunking (replicate 2500 CHR ''A'') = replicate 2500 CHR ''A''"
    by (rule cleanTextForChunking_id) (simp add: ws)
  have tr: "\<And>n. trim (replicate n CHR ''A'') = replicate n CHR ''A''"
    by (rule trim_id) (simp add: ws)
  show ?thesis
    unfolding fixedChunk_def clean
    by (simp add: fixedChunk_loop.simps fixedChunk_body_def Let_def substring_replicate tr
        minChunkSizeOf_def preserveSentencesOf_def estimateTokens_def noMetadata_def)
qed

text \<open>
  Claim C4, as the code has it. On 2500 identical characters with
  \<open>{chunkSize: 1000, chunkOverlap: 200, minChunkSize: 100, preserveSentences: false}\<close>,
  \<open>fixedChunk\<close> returns exactly 4 chunks: their contents have 1000, 1000, 900 and 100
  characters (none above 1000), their recorded start offsets are 0, 800, 1600 and 2400
  (the second chunk starts at 800), and the final chunk, the window from 2400 with
  exactly \<open>minChunkSize\<close> characters, is present.
\<close>

theorem fixedChunk_scenario_2500:
  "\<exists>result. fixedChunk (replicate 2500 CHR ''A'')
       \<lparr>strategy = Fixed, chunkSize = 1000, chunkOverlap = 200, minChunkSize = Some 100,
        maxChunkSize = None, preserveSentences = Some False\<rparr> None = Some result
     \<and> length result = 4
     \<and> map (\<lambda>c. int (length (chunk_content c))) result = [1000, 1000, 900, 100]
     \<and> map charCount result = [1000, 1000, 900, 100]
     \<and> map (\<lambda>c. startChar (metadata c)) result = [Some 0, Some 800, Some 1600, Some 2400]
     \<and> chunk_content (last result) = replicate 100 CHR ''A''"
  by (simp add: fixedChunk_2500 noMetadata_def)

text \<open>The claim as written says 3 chunks: after the window from 1600, which reaches the
  end of the text, the next start is \<open>2600 - 200 = 2400 < 2500\<close>, so the loop runs once
  more.\<close>

theorem fixedChunk_scenario_2500_counterexample:
  "\<not> (\<exists>result. fixedChunk (replicate 2500 CHR ''A'')
       \<lparr>strategy = Fixed, chunkSize = 1000, chunkOverlap = 200, minChunkSize = Some 100,
        maxChunkSize = None, preserveSentences = Some False\<rparr> None = Some result
     \<and> length result = 3)"
  by (simp add: fixedChunk_2500)

subsection \<open>Termination\<close>

text \<open>
  Claim C5 fails on the code: the branch that skips a window that is too small sets
  \<open>startPos = endPos - chunkOverlap\<close> and continues without the progress guard of the
  other branch. On 60 identical characters with \<open>{chunkSize: 50, chunkOverlap: 50}\<close> and
  the defaults \<open>minChunkSize = 100\<close>, \<open>preserveSentences = true\<close>, the first window has 50
  characters, is skipped, and the next start is \<open>50 - 50 = 0\<close> again: \<open>fixedChunk\<close>
  never returns.
\<close>

theorem fixedChunk_overlap_equal_diverges:
  "fixedChunk (replicate 60 CHR ''A'')
     \<lparr>strategy = Fixed, chunkSize = 50, chunkOverlap = 50, minChunkSize = None,
      maxChunkSize = None, preserveSentences = None\<rparr> None = None"
proof -
  let ?o = "\<lparr>strategy = Fixed, chunkSize = 50, chunkOverlap = 50, minChunkSize = None,
      maxChunkSize = None, preserveSentences = None\<rparr>"
  let ?t = "replicate 60 CHR ''A''"
  have ws: "\<not> isWhitespace CHR ''A''" by (simp add: isWhitespace_def)
  have clean: "cleanTextForChunking ?t = ?t"
    by (rule cleanTextForChunking_id) (simp add: ws)
  have tr: "\<And>n. trim (replicate n CHR ''A'') = replicate n CHR ''A''"
    by (rule trim_id) (simp add: ws)
  have bp: "findBreakPoint ?t 50 100 = 50"
    by (rule findBreakPoint_plain) (auto simp: isSentencePunct_def)
  have body: "fixedChunk_body ?t ?o None \<lparr>startPos = 0, chunks = []\<rparr>
      = \<lparr>startPos = 0, chunks = []\<rparr>"
    by (simp add: fixedChunk_body_def Let_def bp substring_replicate tr minChunkSizeOf_def
        preserveSentencesOf_def)
  have "fixedChunk_loop ?t ?o None \<lparr>startPos = 0, chunks = []\<rparr> = None"
    by (rule fixedChunk_loop_diverges [where I = "\<lambda>st. st = \<lparr>startPos = 0, chunks = []\<rparr>"])
      (simp_all add: body)
  then show ?thesis
    by (simp add: fixedChunk_def clean)
qed




text \<open>An overlap below the chunk size does not save the loop either: with
  \<open>{chunkSize: 10, chunkOverlap: 1}\<close> and the same defaults, \<open>findBreakPoint\<close> moves the
  end of the first two windows back to the sentence end at offset 4, and the start stays
  at 3.\<close>

lemma fixedChunk_small_overlap_diverges:
  "fixedChunk ''Hi. BBBBBBBBBBBBBBBBBBBB''
     \<lparr>strategy = Fixed, chunkSize = 10, chunkOverlap = 1, minChunkSize = None,
      maxChunkSize = None, preserveSentences = None\<rparr> None = None"
proof -
  let ?o = "\<lparr>strategy = Fixed, chunkSize = 10, chunkOverlap = 1, minChunkSize = None,
      maxChunkSize = None, preserveSentences = None\<rparr>"
  let ?t = "''Hi. BBBBBBBBBBBBBBBBBBBB''"
  have clean: "cleanTextForChunking ?t = ?t"
    by (simp add: cleanTextForChunking_def isBlank_def trim_def isWhitespace_def)
  have sub: "substring ?t 0 24 = ?t"
    by (simp add: substring_def)
  have para: "lastIndexOf ?t [CHR 0x0A, CHR 0x0A] k = - 1" for k
    by (rule lastIndexOf_absent) simp_all
  have ends: "sentenceEnds 0 ?t = [4]"
    by (simp add: isSentencePunct_def isWhitespace_def)
  have bp: "findBreakPoint ?t 10 100 = 4" "findBreakPoint ?t 13 100 = 4"
    by (simp_all add: findBreakPoint_def Let_def sub para ends del: sentenceEnds.simps)
  have c0: "trim (substring ?t 0 4) = ''Hi.''"
    by (simp add: substring_def trim_def isWhitespace_def)
  have c3: "trim (substring ?t 3 4) = []"
    by (simp add: substring_def trim_def isWhitespace_def)
  have body0: "fixedChunk_body ?t ?o None \<lparr>startPos = 0, chunks = []\<rparr>
      = \<lparr>startPos = 3, chunks = []\<rparr>"
    by (simp add: fixedChunk_body_def Let_def bp c0 minChunkSizeOf_def preserveSentencesOf_def)
  have body3: "fixedChunk_body ?t ?o None \<lparr>startPos = 3, chunks = []\<rparr>
      = \<lparr>startPos = 3, chunks = []\<rparr>"
    by (simp add: fixedChunk_body_def Let_def bp c3 minChunkSizeOf_def preserveSentencesOf_def)
  have "fixedChunk_loop ?t ?o None \<lparr>startPos = 0, chunks = []\<rparr> = None"
    by (rule fixedChunk_loop_diverges
        [where I = "\<lambda>st. st = \<lparr>startPos = 0, chunks = []\<rparr> \<or> st = \<lparr>startPos = 3, chunks = []\<rparr>"])
      (auto simp: body0 body3)
  then show ?thesis
    by (simp add: fixedChunk_def clean)
qed

section \<open>Sentence splitting\<close>

text \<open>
  Claim C9. \<open>splitIntoSentences("Dr. Smith went home. He was tired.")\<close> is the list of
  the two sentences \<open>"Dr. Smith went home."\<close> and \<open>"He was tired."\<close>: the abbreviation
  is replaced by its placeholder \<open>__ABBR3__\<close> before the split, so the split happens only
  at the white space behind \<open>home.\<close>, and the placeholder is turned back into \<open>Dr.\<close>.
\<close>

theorem splitIntoSentences_example:
  "substituteAbbreviations 0 abbreviations ''Dr. Smith went home. He was tired.''
     = ''__ABBR3__ Smith went home. He was tired.''
   \<and> splitAfterPunct None [] ''__ABBR3__ Smith went home. He was tired.''
     = [''__ABBR3__ Smith went home.'', ''He was tired.'']
   \<and> splitIntoSentences ''Dr. Smith went home. He was tired.''
     = [''Dr. Smith went home.'', ''He was tired.'']"
  by code_simp

section \<open>Empty input\<close>

text \<open>A text of white space only cleans to the empty text. On a text that cleans to
  the empty text the fixed, page and semantic strategies return the empty list, whatever
  the options; the recursive strategy does so when \<open>minChunkSize\<close> is positive, and
  returns one chunk with empty content otherwise.\<close>

lemma trim_empty: "trim [] = []"
  by (simp add: trim_def)

lemma clean_empty: "cleanTextForChunking [] = []"
  by (simp add: cleanTextForChunking_def trim_def)

lemma normalizeLineBreaks_blank:
  "\<forall>c \<in> set s. isWhitespace c \<Longrightarrow> \<forall>c \<in> set (normalizeLineBreaks s). isWhitespace c"
  by (induction s rule: normalizeLineBreaks.induct) (auto simp: isWhitespace_def)

lemma collapseBlanks_blank:
  "\<forall>c \<in> set s. isWhitespace c \<Longrightarrow> \<forall>c \<in> set (collapseBlanks s). isWhitespace c"
  by (induction s rule: collapseBlanks.induct) (auto simp: isWhitespace_def)

lemma limitLineFeeds_blank:
  "\<forall>c \<in> set s. isWhitespace c \<Longrightarrow> \<forall>c \<in> set (limitLineFeeds k s). isWhitespace c"
  by (induction s arbitrary: k) auto

lemma dropWhile_all: "\<forall>c \<in> set s. P c \<Longrightarrow> dropWhile P s = []"
  by (induction s) auto

lemma trim_blank: "\<forall>c \<in> set s. isWhitespace c \<Longrightarrow> trim s = []"
  by (simp add: trim_def dropWhile_all)

lemma cleanTextForChunking_blank:
  assumes "\<forall>c \<in> set s. isWhitespace c"
  shows "cleanTextForChunking s = []"
  unfolding cleanTextForChunking_def
  by (intro trim_blank limitLineFeeds_blank collapseBlanks_blank normalizeLineBreaks_blank assms)

lemma fixedChunk_empty:
  "cleanTextForChunking s = [] \<Longrightarrow> fixedChunk s options pages = Some []"
  by (simp add: fixedChunk_def fixedChunk_loop.simps)

lemma pageChunk_empty:
  "\<forall>page \<in> set pages. cleanTextForChunking (page_text page) = [] \<Longrightarrow>
     pageChunk_loop options pages acc = Some acc"
proof (induction pages arbitrary: acc)
  case Nil
  then show ?case by simp
next
  case (Cons page pages)
  then have e: "cleanTextForChunking (page_text page) = []" by simp
  have f: "fixedChunk [] options None = Some []"
    by (rule fixedChunk_empty) (rule clean_empty)
  show ?case
    using Cons e f by (simp add: Let_def)
qed

lemma splitString_empty: "separator \<noteq> [] \<Longrightarrow> splitString [] separator = [[]]"
  by (simp add: splitString_def split_from.simps [of separator "[]" "[]"])

lemma splitRecursively_empty:
  "splitRecursively [] size' SEPARATORS = Some (if 0 \<le> size' then [[]] else [])"
proof (cases "0 \<le> size'")
  case True
  then show ?thesis
    unfolding SEPARATORS_def by (subst splitRecursively.simps) simp
next
  case False
  have parts: "filter (\<lambda>p. trim p \<noteq> []) (splitString [] [CHR 0x0A, CHR 0x0A, CHR 0x0A]) = []"
    by (simp add: splitString_empty trim_empty)
  show ?thesis
    unfolding SEPARATORS_def
    by (subst splitRecursively.simps) (simp add: False parts Let_def del: splitRecursively.simps)
qed

lemma recursiveChunk_empty:
  assumes "cleanTextForChunking s = []"
  shows "recursiveChunk s options =
     Some (if minChunkSizeOf options \<le> 0 then [recursiveChunkData [] 0] else [])"
proof (cases "0 \<le> chunkSize options")
  case True
  then show ?thesis
    using assms
    by (simp add: recursiveChunk_def splitRecursively_empty recursiveChunk_body_def trim_empty
        Let_def)
next
  case False
  then show ?thesis
    using assms
    by (simp add: recursiveChunk_def splitRecursively_empty trim_empty Let_def)
qed

lemma extractSections_empty: "extractSections [] = []"
  by (simp add: extractSections_def trim_empty startsWithMarkdownHeader_def isCapsHeader_def)

lemma semanticChunk_empty:
  "cleanTextForChunking s = [] \<Longrightarrow> semanticChunk s options = []"
  by (simp add: semanticChunk_def extractSections_empty)

text \<open>
  Claim C7 fails on the code for the recursive strategy: the empty text with
  \<open>minChunkSize = 0\<close> gives a list of one chunk whose content is empty, because the
  test before the last push, \<open>currentChunk.trim().length >= minChunkSize\<close>, holds for
  the empty \<open>currentChunk\<close>.
\<close>

theorem recursiveChunk_empty_input:
  "recursiveChunk []
     \<lparr>strategy = Recursive, chunkSize = 1000, chunkOverlap = 200, minChunkSize = Some 0,
      maxChunkSize = None, preserveSentences = None\<rparr>
   = Some [\<lparr>chunk_content = [], charCount = 0, tokenCount = 0,
            metadata = noMetadata\<lparr>startChar := Some 0\<rparr>\<rparr>]"
  by (simp add: recursiveChunk_empty clean_empty minChunkSizeOf_def recursiveChunkData_def
      trim_empty estimateTokens_def)

section \<open>\<open>minChunkSize\<close> and the final chunk\<close>

subsection \<open>Trimmed texts and break points\<close>
















subsection \<open>Texts that fit one chunk\<close>








subsection \<open>The rule of each strategy\<close>




end
